theory Spec2Isabelle
  imports Main
begin

section \<open>Strings\<close>

text \<open>
  Go strings are byte sequences; they are modelled as \<open>string\<close> (a list of 8-bit
  characters). \<open>strings.Contains s sub\<close> reports whether \<open>sub\<close> occurs in \<open>s\<close>
  as a contiguous run of bytes.
\<close>

fun Contains :: "string \<Rightarrow> string \<Rightarrow> bool" where
  "Contains [] sub = (sub = [])"
| "Contains (c # cs) sub = (take (length sub) (c # cs) = sub \<or> Contains cs sub)"

section \<open>The rule converter (migrate-alertrule.go)\<close>

subsection \<open>Label matchers\<close>

datatype MatchType = MatchEqual | MatchRegexp

record LabelMatcher =
  Type :: MatchType
  LabelName :: string
  Value :: string

text \<open>\<open>matchType\<close>, lines 217-222.\<close>

definition matchType :: "string \<Rightarrow> MatchType" where
  "matchType v = (if Contains v ''|'' then MatchRegexp else MatchEqual)"

subsection \<open>Legacy rules (package observe)\<close>

text \<open>
  The declarations of the legacy rule types are not part of the sources at hand; the
  records below hold exactly the fields the converter reads. Fields of the legacy side
  carry the prefix \<open>o\<close> (for package \<open>observe\<close>), since the canonical rule uses the
  same field names; a label matcher's \<open>Name\<close> is \<open>LabelName\<close> for the same reason.
  The converter reads \<open>rec.AlertChannel.ID\<close> of every receiver binding: a binding holds
  its channel. A Go map has no iteration order: the label pairs of a generator are the
  list of the map's entries in the order in which the \<open>range\<close> loop visits them.
\<close>

record oAlertLevel =
  oCompareOp :: string
  oCompareValue :: string
  oSeverity :: string

record AlertChannel =
  ChannelID :: nat

record oAlertReceiver =
  oAlertChannel :: AlertChannel
  oInterval :: string

record oPromqlGenerator =
  oScope :: string
  oResource :: string
  oRule :: string
  oUnit :: string
  oPromLabelPairs :: "(string \<times> string) list"

record oLogqlGenerator =
  oDuration :: string
  oMatch :: string
  oLogLabelPairs :: "(string \<times> string) list"

datatype ChannelStatus = StatusNormal | StatusOther nat

record BaseAlertRule =
  oNamespace :: string
  oName :: string
  oExpr :: string
  oMessage :: string
  oFor :: string
  oInhibitLabels :: "string list"
  oIsOpen :: bool
  oAlertLevels :: "oAlertLevel list"
  oReceivers :: "oAlertReceiver list"
  oChannelStatus :: ChannelStatus

record MonitorAlertRule = BaseAlertRule +
  oPromqlGenerator :: "oPromqlGenerator option"

record LoggingAlertRule = BaseAlertRule +
  oLogqlGenerator :: "oLogqlGenerator option"

subsection \<open>Canonical rules (package models)\<close>

record AlertLevel =
  CompareOp :: string
  CompareValue :: string
  Severity :: string

record AlertReceiver =
  AlertChannelID :: nat
  Interval :: string

record PromqlGenerator =
  Scope :: string
  Resource :: string
  Rule :: string
  Unit :: string
  PromLabelMatchers :: "LabelMatcher list"

record LogqlGenerator =
  Duration :: string
  Match :: string
  LogLabelMatchers :: "LabelMatcher list"

datatype AlertType = AlertTypeMonitor | AlertTypeLogging

text \<open>
  \<open>ID\<close> is the primary key the store assigns; a rule built by the converter has the
  zero value there, as every field the composite literal does not mention.
\<close>

record AlertRule =
  ID :: nat
  Cluster :: string
  Namespace :: string
  Name :: string
  AlertType :: AlertType
  Expr :: string
  Message :: string
  For :: string
  InhibitLabels :: "string list"
  IsOpen :: bool
  AlertLevels :: "AlertLevel list"
  Receivers :: "AlertReceiver list"
  PromqlGenerator :: "PromqlGenerator option"
  LogqlGenerator :: "LogqlGenerator option"

subsection \<open>The two conversions\<close>

text \<open>
  Each \<open>for ... range\<close> loop appends one element per input element; it is a left fold
  whose accumulator is the slice built so far.
\<close>

definition appendLevel :: "AlertLevel list \<Rightarrow> oAlertLevel \<Rightarrow> AlertLevel list" where
  "appendLevel acc level =
     acc @ [\<lparr>CompareOp = oCompareOp level, CompareValue = oCompareValue level,
             Severity = oSeverity level\<rparr>]"

definition appendReceiver :: "AlertReceiver list \<Rightarrow> oAlertReceiver \<Rightarrow> AlertReceiver list" where
  "appendReceiver acc rec =
     acc @ [\<lparr>AlertChannelID = ChannelID (oAlertChannel rec), Interval = oInterval rec\<rparr>]"

definition appendMatcher :: "LabelMatcher list \<Rightarrow> string \<times> string \<Rightarrow> LabelMatcher list" where
  "appendMatcher acc kv =
     acc @ [\<lparr>Type = matchType (snd kv), LabelName = fst kv, Value = snd kv\<rparr>]"

text \<open>
  \<open>convertMonitorAlertRule\<close>, lines 224-268. The final \<open>log.Errorf\<close> on an abnormal
  channel status writes to the log only and leaves the returned rule as it is.
\<close>

definition convertMonitorAlertRule :: "string \<Rightarrow> MonitorAlertRule \<Rightarrow> AlertRule" where
  "convertMonitorAlertRule cluster monitorRule =
     (let ret = \<lparr>ID = 0,
                 Cluster = cluster,
                 Namespace = oNamespace monitorRule,
                 Name = oName monitorRule,
                 AlertType = AlertTypeMonitor,
                 Expr = oExpr monitorRule,
                 Message = oMessage monitorRule,
                 For = oFor monitorRule,
                 InhibitLabels = oInhibitLabels monitorRule,
                 IsOpen = oIsOpen monitorRule,
                 AlertLevels = [],
                 Receivers = [],
                 PromqlGenerator = None,
                 LogqlGenerator = None\<rparr>;
          ret = ret\<lparr>AlertLevels := foldl appendLevel (AlertLevels ret) (oAlertLevels monitorRule)\<rparr>;
          ret = ret\<lparr>Receivers := foldl appendReceiver (Receivers ret) (oReceivers monitorRule)\<rparr>
      in case oPromqlGenerator monitorRule of
           None \<Rightarrow> ret
         | Some g \<Rightarrow>
             ret\<lparr>PromqlGenerator :=
                   Some \<lparr>Scope = oScope g, Resource = oResource g, Rule = oRule g,
                         Unit = oUnit g,
                         PromLabelMatchers = foldl appendMatcher [] (oPromLabelPairs g)\<rparr>\<rparr>)"

text \<open>\<open>convertLoggingAlertRule\<close>, lines 270-312.\<close>

definition convertLoggingAlertRule :: "string \<Rightarrow> LoggingAlertRule \<Rightarrow> AlertRule" where
  "convertLoggingAlertRule cluster loggingRule =
     (let ret = \<lparr>ID = 0,
                 Cluster = cluster,
                 Namespace = oNamespace loggingRule,
                 Name = oName loggingRule,
                 AlertType = AlertTypeLogging,
                 Expr = oExpr loggingRule,
                 Message = oMessage loggingRule,
                 For = oFor loggingRule,
                 InhibitLabels = oInhibitLabels loggingRule,
                 IsOpen = oIsOpen loggingRule,
                 AlertLevels = [],
                 Receivers = [],
                 PromqlGenerator = None,
                 LogqlGenerator = None\<rparr>;
          ret = ret\<lparr>AlertLevels := foldl appendLevel (AlertLevels ret) (oAlertLevels loggingRule)\<rparr>;
          ret = ret\<lparr>Receivers := foldl appendReceiver (Receivers ret) (oReceivers loggingRule)\<rparr>
      in case oLogqlGenerator loggingRule of
           None \<Rightarrow> ret
         | Some g \<Rightarrow>
             ret\<lparr>LogqlGenerator :=
                   Some \<lparr>Duration = oDuration g, Match = oMatch g,
                         LogLabelMatchers = foldl appendMatcher [] (oLogLabelPairs g)\<rparr>\<rparr>)"

section \<open>The name normalizer (migrate-alertrule.go)\<close>

subsection \<open>Errors, log entries and the world the tool runs in\<close>

text \<open>
  Go's \<open>error\<close> results are values: \<open>EOF\<close> is \<open>io.EOF\<close>, which phase A tells apart
  from every other error; \<open>Failure\<close> is any other error of a collaborator, with its
  text; \<open>Wrapf\<close> is \<open>errors.Wrapf\<close> around the error of a failed update, with the rule
  the message names.
\<close>

datatype error = EOF | Failure string | Wrapf error AlertRule

text \<open>
  The log calls of the three functions, one constructor per call site. An
  \<open>AlertRule\<close> argument stands for the rule whose \<open>FullName()\<close> is printed.
\<close>

datatype logEntry =
    AddNewAlertName string
  | UpdateAlertRuleName AlertRule string
  | ClientOfFailed string
  | SyncAlertRuleError error
  | SyncAlertRuleSuccess AlertRule

text \<open>
  The override file holds YAML. Its bytes are abstracted to the document they encode:
  an empty file (on which the decoder returns \<open>io.EOF\<close>), a mapping from strings to
  strings (what \<open>yaml.Marshal\<close> writes for a \<open>map[string]string\<close> and what \<open>Decode\<close> reads
  back into one), or anything else (on which \<open>Decode\<close> into a \<open>map[string]string\<close> fails).
\<close>

datatype yamlDoc = EmptyDoc | MapDoc "string \<Rightarrow> string option" | OtherDoc

fun Decode :: "yamlDoc \<Rightarrow> error + (string \<Rightarrow> string option)" where
  "Decode EmptyDoc = Inl EOF"
| "Decode (MapDoc m) = Inr m"
| "Decode OtherDoc = Inl (Failure ''yaml: unmarshal errors'')"

record EnvInfo =
  ClusterName :: string
  EnvNamespace :: string
  TenantName :: string
  ProjectName :: string
  EnvironmentName :: string

text \<open>
  What the functions read and write: the two files (\<open>None\<close> when the file does not
  exist; the audit file as its bytes), the table \<open>alert_rules\<close> and the log.
\<close>

record World =
  alertNameMapFile :: "yamlDoc option"
  alertNameChangeRecordFile :: "string option"
  alert_rules :: "AlertRule list"
  logs :: "logEntry list"

text \<open>
  The collaborators whose code lies outside the sources at hand are parameters of the
  model: for each fallible call the error it returns (\<open>None\<close> for \<open>nil\<close>), and the
  functions \<open>models.IsValidAlertRuleName\<close>, \<open>strcase.KebabCase\<close> and the encoding of one
  record by \<open>encoding/csv\<close>. \<open>OpenRecordFile\<close> tells whether the audit file can be opened;
  the source drops that error and every write error.
\<close>

record Env =
  OpenMapFile :: "error option"
  WriteMapFile :: "error option"
  RawScan :: "error option"
  Find :: "error option"
  ClusterNS2EnvMap :: "error + (string \<Rightarrow> EnvInfo option)"
  IsValidAlertRuleName :: "string \<Rightarrow> error option"
  KebabCase :: "string \<Rightarrow> string"
  Update :: "AlertRule \<Rightarrow> string \<Rightarrow> error option"
  OpenRecordFile :: bool
  csvRecord :: "string list \<Rightarrow> string"

text \<open>
  \<open>os.OpenFile\<close> with \<open>O_CREATE|O_RDWR\<close> creates a missing file, empty, and leaves an
  existing one as it is.
\<close>

definition openCreate :: "yamlDoc option \<Rightarrow> yamlDoc" where
  "openCreate f = (case f of None \<Rightarrow> EmptyDoc | Some d \<Rightarrow> d)"

subsection \<open>Phase A: \<open>updateAlertNameMapInFile\<close>, lines 80-102\<close>

text \<open>
  The query selects the names with \<open>length(name) != char_length(name)\<close> (more bytes
  than characters) or \<open>name like "% %"\<close> (a space somewhere). \<open>char_length\<close> counts the
  characters of the UTF-8 text: the bytes that are not continuation bytes
  (\<open>0x80\<close> to \<open>0xBF\<close>).
\<close>

definition char_length :: "string \<Rightarrow> nat" where
  "char_length s =
     length (filter (\<lambda>c. \<not> (128 \<le> (of_char c :: nat) \<and> (of_char c :: nat) < 192)) s)"

definition selected :: "string \<Rightarrow> bool" where
  "selected name = (length name \<noteq> char_length name \<or> Contains name '' '')"

definition selectNames :: "AlertRule list \<Rightarrow> string list" where
  "selectNames rows = map Name (filter (\<lambda>r. selected (Name r)) rows)"

text \<open>The loop body of lines 93-98: the map and the log after one name.\<close>

definition addName ::
  "(string \<Rightarrow> string option) \<times> logEntry list \<Rightarrow> string \<Rightarrow>
   (string \<Rightarrow> string option) \<times> logEntry list" where
  "addName st v =
     (case st of (alertNameMap, lg) \<Rightarrow>
        (case alertNameMap v of
           None \<Rightarrow> (alertNameMap(v \<mapsto> []), lg @ [AddNewAlertName v])
         | Some _ \<Rightarrow> (alertNameMap, lg)))"

definition updateAlertNameMapInFile :: "Env \<Rightarrow> World \<Rightarrow> error option \<times> World" where
  "updateAlertNameMapInFile env w =
     (case OpenMapFile env of
        Some err \<Rightarrow> (Some err, w)
      | None \<Rightarrow>
          (let f = openCreate (alertNameMapFile w);
               w = w\<lparr>alertNameMapFile := Some f\<rparr>;
               decoded = (case Decode f of
                            Inl err \<Rightarrow> (if err \<noteq> EOF then Inl err else Inr Map.empty)
                          | Inr m \<Rightarrow> Inr m)
           in (case decoded of
                 Inl err \<Rightarrow> (Some err, w)
               | Inr alertNameMap \<Rightarrow>
                   (case RawScan env of
                      Some err \<Rightarrow> (Some err, w)
                    | None \<Rightarrow>
                        (let oldnames = selectNames (alert_rules w);
                             st = foldl addName (alertNameMap, logs w) oldnames;
                             w = w\<lparr>logs := snd st\<rparr>
                         in (case WriteMapFile env of
                               Some err \<Rightarrow> (Some err, w)
                             | None \<Rightarrow>
                                 (None, w\<lparr>alertNameMapFile := Some (MapDoc (fst st))\<rparr>)))))))"

subsection \<open>Phase B: \<open>updateAlertRuleNameInDB\<close>, lines 112-163\<close>

text \<open>Lines 132-135: the new name of a rule.\<close>

definition newName :: "Env \<Rightarrow> (string \<Rightarrow> string option) \<Rightarrow> AlertRule \<Rightarrow> string" where
  "newName env alertNameMap v =
     (case alertNameMap (Name v) of
        Some newname \<Rightarrow> newname
      | None \<Rightarrow> KebabCase env (Name v))"

text \<open>
  Lines 140-144: the audit record of a rule. Reading a Go map at a missing key gives
  the zero value, here the \<open>EnvInfo\<close> of empty strings.
\<close>

definition lookupEnv :: "(string \<Rightarrow> EnvInfo option) \<Rightarrow> string \<Rightarrow> EnvInfo" where
  "lookupEnv envinfo k =
     (case envinfo k of
        Some info \<Rightarrow> info
      | None \<Rightarrow> \<lparr>ClusterName = [], EnvNamespace = [], TenantName = [],
                  ProjectName = [], EnvironmentName = []\<rparr>)"

definition auditRecord ::
  "(string \<Rightarrow> EnvInfo option) \<Rightarrow> AlertRule \<Rightarrow> string \<Rightarrow> string list" where
  "auditRecord envinfo v newname =
     (let info = lookupEnv envinfo (Cluster v @ ''/'' @ Namespace v)
      in [Name v, newname, ClusterName info, EnvNamespace info,
          TenantName info, ProjectName info, EnvironmentName info])"

text \<open>
  \<open>db.DB().Model(v).Update("name", newname)\<close> sets the name of the rows whose primary
  key is that of \<open>v\<close>.
\<close>

definition setName :: "AlertRule \<Rightarrow> string \<Rightarrow> AlertRule list \<Rightarrow> AlertRule list" where
  "setName v newname rows = map (\<lambda>r. if ID r = ID v then r\<lparr>Name := newname\<rparr> else r) rows"

text \<open>
  The loop of lines 131-152 over the rules that \<open>Find\<close> returned. It yields the error
  it stopped with or the records it gathered, and in both cases the world it left.
\<close>

fun renameRules ::
  "Env \<Rightarrow> (string \<Rightarrow> string option) \<Rightarrow> (string \<Rightarrow> EnvInfo option) \<Rightarrow>
   AlertRule list \<Rightarrow> string list list \<Rightarrow> World \<Rightarrow> (error + string list list) \<times> World" where
  "renameRules env alertNameMap envinfo [] records w = (Inr records, w)"
| "renameRules env alertNameMap envinfo (v # vs) records w =
     (let newname = newName env alertNameMap v
      in (case IsValidAlertRuleName env newname of
            Some err \<Rightarrow> (Inl err, w)
          | None \<Rightarrow>
              (let records = records @ [auditRecord envinfo v newname]
               in (if Name v \<noteq> newname
                   then (let w = w\<lparr>logs := logs w @ [UpdateAlertRuleName v newname]\<rparr>
                         in (case Update env v newname of
                               Some err \<Rightarrow> (Inl (Wrapf err v), w)
                             | None \<Rightarrow>
                                 renameRules env alertNameMap envinfo vs records
                                   (w\<lparr>alert_rules := setName v newname (alert_rules w)\<rparr>)))
                   else renameRules env alertNameMap envinfo vs records w))))"

text \<open>
  What one processed rule does to the table: the fold of \<open>applyRename\<close> over the rules
  is the table after the loop has passed them.
\<close>

definition applyRename ::
  "(AlertRule \<Rightarrow> string) \<Rightarrow> AlertRule list \<Rightarrow> AlertRule \<Rightarrow> AlertRule list" where
  "applyRename f rows v = (if Name v \<noteq> f v then setName v (f v) rows else rows)"

text \<open>
  Lines 154-159. The audit file is opened with \<open>O_CREATE|O_RDWR\<close>: writing starts at
  offset 0 of whatever the file holds, and bytes of the old content beyond the end of
  the new content stay. When the file cannot be opened nothing is written, and the
  function still returns \<open>nil\<close>.
\<close>

definition BOM :: string where
  "BOM = [CHR 0xEF, CHR 0xBB, CHR 0xBF]"

definition header :: "string list" where
  "header = [''oldname'', ''newname'', ''cluster'', ''namespace'', ''tenant_name'',
             ''project_name'', ''environment_name'']"

definition auditBytes :: "Env \<Rightarrow> string list list \<Rightarrow> string" where
  "auditBytes env records = BOM @ csvRecord env header @ concat (map (csvRecord env) records)"

definition writeAt0 :: "string \<Rightarrow> string \<Rightarrow> string" where
  "writeAt0 old new = new @ drop (length new) old"

definition writeRecordFile :: "Env \<Rightarrow> string list list \<Rightarrow> World \<Rightarrow> World" where
  "writeRecordFile env records w =
     (if OpenRecordFile env
      then w\<lparr>alertNameChangeRecordFile :=
               Some (writeAt0 (case alertNameChangeRecordFile w of None \<Rightarrow> [] | Some old \<Rightarrow> old)
                       (auditBytes env records))\<rparr>
      else w)"

text \<open>The whole function. The closing \<open>time.Sleep\<close> changes nothing the model holds.\<close>

definition updateAlertRuleNameInDB :: "Env \<Rightarrow> World \<Rightarrow> error option \<times> World" where
  "updateAlertRuleNameInDB env w =
     (case OpenMapFile env of
        Some err \<Rightarrow> (Some err, w)
      | None \<Rightarrow>
          (let f = openCreate (alertNameMapFile w);
               w = w\<lparr>alertNameMapFile := Some f\<rparr>
           in (case Decode f of
                 Inl err \<Rightarrow> (Some err, w)
               | Inr alertNameMap \<Rightarrow>
                   (case Find env of
                      Some err \<Rightarrow> (Some err, w)
                    | None \<Rightarrow>
                        (case ClusterNS2EnvMap env of
                           Inl err \<Rightarrow> (Some err, w)
                         | Inr envinfo \<Rightarrow>
                             (case renameRules env alertNameMap envinfo (alert_rules w) [] w of
                                (Inl err, w) \<Rightarrow> (Some err, w)
                              | (Inr records, w) \<Rightarrow>
                                  (None, writeRecordFile env records w)))))))"

subsection \<open>Instances of the collaborators, for concrete runs\<close>

text \<open>
  \<open>strcase.KebabCase\<close> belongs to a library outside this repository, and phase B takes it
  as the parameter \<open>KebabCase\<close>. For concrete runs, \<open>strcase_KebabCase\<close> follows the
  library's delimiter-case conversion on ASCII text: the input is trimmed, a run of
  delimiters (hyphen, underscore, white space) becomes one hyphen, a hyphen is put
  before an upper-case letter that follows a lower-case letter or begins a new word
  inside a run of upper-case letters, and letters are lowered. The loop looks at each
  character together with its neighbours; the character \<open>0\<close> stands for "none yet".
\<close>

definition isUpper :: "char \<Rightarrow> bool" where
  "isUpper ch = (65 \<le> (of_char ch :: nat) \<and> (of_char ch :: nat) \<le> 90)"

definition isLower :: "char \<Rightarrow> bool" where
  "isLower ch = (97 \<le> (of_char ch :: nat) \<and> (of_char ch :: nat) \<le> 122)"

definition toLower :: "char \<Rightarrow> char" where
  "toLower ch = (if isUpper ch then char_of ((of_char ch :: nat) + 32) else ch)"

definition isSpace :: "char \<Rightarrow> bool" where
  "isSpace ch = (ch = CHR '' '' \<or> ch = CHR 0x09 \<or> ch = CHR 0x0A \<or> ch = CHR 0x0D)"

definition isDelimiter :: "char \<Rightarrow> bool" where
  "isDelimiter ch = (ch = CHR ''-'' \<or> ch = CHR ''_'' \<or> isSpace ch)"

definition asciiSpace :: "char \<Rightarrow> bool" where
  "asciiSpace ch = (isSpace ch \<or> ch = CHR 0x0B \<or> ch = CHR 0x0C)"

definition TrimSpace :: "string \<Rightarrow> string" where
  "TrimSpace s = rev (dropWhile asciiSpace (rev (dropWhile asciiSpace s)))"

definition kebabStep :: "char \<times> char \<times> string \<Rightarrow> char \<Rightarrow> char \<times> char \<times> string" where
  "kebabStep st next =
     (case st of (prev, cur, buffer) \<Rightarrow>
        (cur, next,
         if isDelimiter cur
         then (if \<not> isDelimiter prev then buffer @ ''-'' else buffer)
         else if isUpper cur
         then (if isLower prev \<or> (isUpper prev \<and> isLower next)
               then buffer @ ''-'' else buffer) @ [toLower cur]
         else if cur \<noteq> CHR 0x00 then buffer @ [toLower cur]
         else buffer))"

definition strcase_KebabCase :: "string \<Rightarrow> string" where
  "strcase_KebabCase s0 =
     (let s = TrimSpace s0
      in case foldl kebabStep (CHR 0x00, CHR 0x00, []) s of
           (prev, cur, buffer) \<Rightarrow>
             if length s > 0
             then (if isUpper cur \<and> isLower prev \<and> prev \<noteq> CHR 0x00
                   then buffer @ ''-'' else buffer) @ [toLower cur]
             else buffer)"

definition slugChar :: "char \<Rightarrow> bool" where
  "slugChar ch =
     (isLower ch \<or> (48 \<le> (of_char ch :: nat) \<and> (of_char ch :: nat) \<le> 57) \<or> ch = CHR ''-'')"

text \<open>
  Modelled from the spec: \<open>models.IsValidAlertRuleName\<close> is a function of this
  repository whose file is not among the sources at hand. The spec calls the names it
  accepts canonical slugs, "a name containing only lowercase letters, digits, and
  hyphens"; the instance accepts the non-empty strings of such characters and returns
  an error for every other string. Phase B itself takes the function as the parameter
  \<open>IsValidAlertRuleName\<close>.
\<close>

definition slug_IsValidAlertRuleName :: "string \<Rightarrow> error option" where
  "slug_IsValidAlertRuleName name =
     (if name \<noteq> [] \<and> list_all slugChar name then None
      else Some (Failure ''invalid alert rule name''))"

text \<open>
  The record encoding of \<open>encoding/csv\<close> for fields that need no quoting (no comma, quote,
  line break or leading space): the fields joined by commas, then a line feed.
\<close>

fun joinComma :: "string list \<Rightarrow> string" where
  "joinComma [] = []"
| "joinComma [f] = f"
| "joinComma (f # g # fs) = f @ '','' @ joinComma (g # fs)"

definition plainCsvRecord :: "string list \<Rightarrow> string" where
  "plainCsvRecord fs = joinComma fs @ [CHR 0x0A]"

text \<open>An environment in which every collaborator succeeds, with the instances above.\<close>

definition goodEnv :: "(string \<Rightarrow> EnvInfo option) \<Rightarrow> Env" where
  "goodEnv envinfo =
     \<lparr>OpenMapFile = None, WriteMapFile = None, RawScan = None, Find = None,
      ClusterNS2EnvMap = Inr envinfo,
      IsValidAlertRuleName = slug_IsValidAlertRuleName,
      KebabCase = strcase_KebabCase,
      Update = (\<lambda>v newname. None),
      OpenRecordFile = True,
      csvRecord = plainCsvRecord\<rparr>"

text \<open>A persisted rule with the given key, location and name, and nothing else set.\<close>

definition rule :: "nat \<Rightarrow> string \<Rightarrow> string \<Rightarrow> string \<Rightarrow> AlertRule" where
  "rule i cluster namespace name =
     \<lparr>ID = i, Cluster = cluster, Namespace = namespace, Name = name,
      AlertType = AlertTypeMonitor, Expr = [], Message = [], For = [],
      InhibitLabels = [], IsOpen = True, AlertLevels = [], Receivers = [],
      PromqlGenerator = None, LogqlGenerator = None\<rparr>"

section \<open>The re-sync driver: \<open>syncAlertRules\<close>, lines 197-215\<close>

text \<open>
  \<open>cs.ClientOf\<close> returns a client and an error, as Go functions do: either may be \<open>nil\<close>
  (\<open>None\<close>). A client is known by its \<open>Name()\<close>. Calling \<open>Name()\<close> on a \<open>nil\<close> client is
  a nil dereference: the function panics and processes nothing further.
  \<open>SyncAlertRule\<close> is the rule processor's operation, a parameter as well; the calls made
  to it are recorded in order.
\<close>

type_synonym Client = string

record SyncEnv =
  PreloadFind :: "error option"
  ClientOf :: "string \<Rightarrow> Client option \<times> error option"
  SyncAlertRule :: "Client option \<Rightarrow> AlertRule \<Rightarrow> error option"

record SyncState =
  syncCalls :: "(Client option \<times> AlertRule) list"
  syncLogs :: "logEntry list"

datatype result = Return "error option" | Panic

fun syncLoop :: "SyncEnv \<Rightarrow> AlertRule list \<Rightarrow> SyncState \<Rightarrow> result \<times> SyncState" where
  "syncLoop env [] s = (Return None, s)"
| "syncLoop env (v # vs) s =
     (case ClientOf env (Cluster v) of
        (cli, Some err) \<Rightarrow>
          (case cli of
             None \<Rightarrow> (Panic, s)
           | Some c \<Rightarrow> syncLoop env vs (s\<lparr>syncLogs := syncLogs s @ [ClientOfFailed c]\<rparr>))
      | (cli, None) \<Rightarrow>
          (let s = s\<lparr>syncCalls := syncCalls s @ [(cli, v)]\<rparr>
           in (case SyncAlertRule env cli v of
                 Some err \<Rightarrow>
                   syncLoop env vs (s\<lparr>syncLogs := syncLogs s @ [SyncAlertRuleError err]\<rparr>)
               | None \<Rightarrow>
                   syncLoop env vs (s\<lparr>syncLogs := syncLogs s @ [SyncAlertRuleSuccess v]\<rparr>))))"

definition syncAlertRules :: "SyncEnv \<Rightarrow> AlertRule list \<Rightarrow> SyncState \<Rightarrow> result \<times> SyncState" where
  "syncAlertRules env alertrules s =
     (case PreloadFind env of
        Some err \<Rightarrow> (Return (Some err), s)
      | None \<Rightarrow> syncLoop env alertrules s)"

section \<open>Deep copies of the plugin types (zz_generated.deepcopy.go)\<close>

subsection \<open>Slices, structs and memory\<close>

text \<open>
  A Go slice is \<open>nil\<close> or a window into an array: the array, the offset of the first
  element and the length. Arrays live in memory, a list of arrays in the order of
  their allocation; the index in that list is the array's address, so a new array is
  one whose address is not below the length of the memory before the call.
\<close>

datatype slice = NilSlice | Slice nat nat nat

text \<open>
  The declarations of the structs are not among the sources at hand. A struct is
  modelled by the fields that the deep-copy functions name and one more field for all
  the others, which the struct assignment \<open>*out = *in\<close> carries over. Values whose types
  are declared elsewhere (\<open>TypeMeta\<close>, \<open>ObjectMeta\<close>, \<open>ListMeta\<close>, \<open>Values\<close>, the time stamps,
  the other fields) are of the type variable \<open>'x\<close>, slice elements
  (\<open>v1.ObjectReference\<close>, \<open>ValuesFrom\<close>, \<open>ManagedResource\<close>) of the type variable \<open>'e\<close>.
  The field \<open>Values\<close> of the spec is \<open>SpecValues\<close>, that of the status \<open>StatusValues\<close>.
\<close>

record 'x PluginSpec =
  Dependencies :: slice
  SpecValues :: 'x
  ValuesFrom :: slice
  SpecRest :: 'x

record 'x PluginStatus =
  StatusValues :: 'x
  CreationTimestamp :: 'x
  UpgradeTimestamp :: 'x
  Resources :: slice
  StatusRest :: 'x

record 'x Plugin =
  TypeMeta :: 'x
  ObjectMeta :: 'x
  Spec :: "'x PluginSpec"
  Status :: "'x PluginStatus"

record 'x PluginList =
  ListTypeMeta :: 'x
  ListMeta :: 'x
  Items :: slice

text \<open>
  The deep copies this file calls and does not define are parameters: each maps the
  value it copies to the value of the copy. \<open>Zero\<close> holds the zero values of the three
  element types, with which \<open>make\<close> fills a new array.
\<close>

record 'x Collab =
  ObjectMeta_DeepCopyInto :: "'x \<Rightarrow> 'x"
  ListMeta_DeepCopyInto :: "'x \<Rightarrow> 'x"
  Values_DeepCopy :: "'x \<Rightarrow> 'x"
  Time_DeepCopyInto :: "'x \<Rightarrow> 'x"

record 'e Zero =
  zeroObjectReference :: 'e
  zeroValuesFrom :: 'e
  zeroManagedResource :: 'e

fun len :: "slice \<Rightarrow> nat" where
  "len NilSlice = 0"
| "len (Slice a off n) = n"

fun elems :: "'e list list \<Rightarrow> slice \<Rightarrow> 'e list" where
  "elems h NilSlice = []"
| "elems h (Slice a off n) = take n (drop off (h ! a))"

text \<open>
  Go is memory safe: a slice a program holds lies within an allocated array.
  \<open>validSlice\<close> says so of a slice and a memory.
\<close>

fun validSlice :: "'e list list \<Rightarrow> slice \<Rightarrow> bool" where
  "validSlice h NilSlice = True"
| "validSlice h (Slice a off n) = (a < length h \<and> off + n \<le> length (h ! a))"

text \<open>
  \<open>make([]T, n)\<close> allocates an array of \<open>n\<close> zero values and returns the slice of all of
  it; \<open>copy(dst, src)\<close> writes the first \<open>min(len(dst), len(src))\<close> elements of \<open>src\<close> over
  the first elements of \<open>dst\<close>; \<open>(*out)[i] = x\<close> stores into element \<open>i\<close> of a slice.
\<close>

definition make :: "'e \<Rightarrow> nat \<Rightarrow> 'e list list \<Rightarrow> slice \<times> 'e list list" where
  "make zero n h = (Slice (length h) 0 n, h @ [replicate n zero])"

fun copy :: "slice \<Rightarrow> slice \<Rightarrow> 'e list list \<Rightarrow> 'e list list" where
  "copy NilSlice src h = h"
| "copy (Slice a off n) src h =
     (let k = min n (len src);
          arr = h ! a
      in h[a := take off arr @ take k (elems h src) @ drop (off + k) arr])"

fun storeAt :: "slice \<Rightarrow> nat \<Rightarrow> 'a \<Rightarrow> 'a list list \<Rightarrow> 'a list list" where
  "storeAt NilSlice i x h = h"
| "storeAt (Slice a off n) i x h = h[a := (h ! a)[off + i := x]]"

text \<open>
  The generated idiom for a slice field \<open>F\<close> of flat structs, after \<open>*out = *in\<close>:
  \<^verbatim>\<open>if in.F != nil { in, out := &in.F, &out.F; *out = make([]T, len(*in)); copy(*out, *in) }\<close>
  It yields the slice that \<open>out.F\<close> holds afterwards and the memory.
\<close>

definition deepCopySlice :: "'e \<Rightarrow> slice \<Rightarrow> 'e list list \<Rightarrow> slice \<times> 'e list list" where
  "deepCopySlice zero s h =
     (if s \<noteq> NilSlice
      then (case make zero (len s) h of (out, h) \<Rightarrow> (out, copy out s h))
      else (s, h))"

subsection \<open>The generated functions\<close>

text \<open>\<open>Values.DeepCopyInto\<close>, lines 151-154: \<open>clone := in.DeepCopy(); *out = *clone\<close>.\<close>

definition Values_DeepCopyInto :: "'x Collab \<Rightarrow> 'x \<Rightarrow> 'x" where
  "Values_DeepCopyInto co inp = (let clone = Values_DeepCopy co inp in clone)"

text \<open>\<open>PluginSpec.DeepCopyInto\<close>, lines 102-115.\<close>

definition PluginSpec_DeepCopyInto ::
  "'x Collab \<Rightarrow> 'e Zero \<Rightarrow> 'x PluginSpec \<Rightarrow> 'e list list \<Rightarrow>
   'x PluginSpec \<times> 'e list list" where
  "PluginSpec_DeepCopyInto co z inp h =
     (let out = inp
      in (case deepCopySlice (zeroObjectReference z) (Dependencies inp) h of
            (s, h) \<Rightarrow>
              (let out = out\<lparr>Dependencies := s\<rparr>;
                   out = out\<lparr>SpecValues := Values_DeepCopyInto co (SpecValues inp)\<rparr>
               in (case deepCopySlice (zeroValuesFrom z) (ValuesFrom inp) h of
                     (s, h) \<Rightarrow> (out\<lparr>ValuesFrom := s\<rparr>, h)))))"

text \<open>\<open>PluginStatus.DeepCopyInto\<close>, lines 128-138.\<close>

definition PluginStatus_DeepCopyInto ::
  "'x Collab \<Rightarrow> 'e Zero \<Rightarrow> 'x PluginStatus \<Rightarrow> 'e list list \<Rightarrow>
   'x PluginStatus \<times> 'e list list" where
  "PluginStatus_DeepCopyInto co z inp h =
     (let out = inp;
          out = out\<lparr>StatusValues := Values_DeepCopyInto co (StatusValues inp)\<rparr>;
          out = out\<lparr>CreationTimestamp := Time_DeepCopyInto co (CreationTimestamp inp)\<rparr>;
          out = out\<lparr>UpgradeTimestamp := Time_DeepCopyInto co (UpgradeTimestamp inp)\<rparr>
      in (case deepCopySlice (zeroManagedResource z) (Resources inp) h of
            (s, h) \<Rightarrow> (out\<lparr>Resources := s\<rparr>, h)))"

text \<open>\<open>Plugin.DeepCopyInto\<close>, lines 43-49, and \<open>Plugin.DeepCopy\<close>, lines 52-59.\<close>

definition Plugin_DeepCopyInto ::
  "'x Collab \<Rightarrow> 'e Zero \<Rightarrow> 'x Plugin \<Rightarrow> 'e list list \<Rightarrow> 'x Plugin \<times> 'e list list" where
  "Plugin_DeepCopyInto co z inp h =
     (let out = inp;
          out = out\<lparr>TypeMeta := TypeMeta inp\<rparr>;
          out = out\<lparr>ObjectMeta := ObjectMeta_DeepCopyInto co (ObjectMeta inp)\<rparr>
      in (case PluginSpec_DeepCopyInto co z (Spec inp) h of
            (spec, h) \<Rightarrow>
              (case PluginStatus_DeepCopyInto co z (Status inp) h of
                 (status, h) \<Rightarrow> (out\<lparr>Spec := spec, Status := status\<rparr>, h))))"

text \<open>
  A pointer to a struct is \<open>None\<close> for \<open>nil\<close> and otherwise the struct it points to;
  \<open>new(Plugin)\<close> gives a pointer that is not \<open>nil\<close>.
\<close>

definition Plugin_DeepCopy ::
  "'x Collab \<Rightarrow> 'e Zero \<Rightarrow> 'x Plugin option \<Rightarrow> 'e list list \<Rightarrow>
   'x Plugin option \<times> 'e list list" where
  "Plugin_DeepCopy co z inp h =
     (case inp of
        None \<Rightarrow> (None, h)
      | Some p \<Rightarrow> (case Plugin_DeepCopyInto co z p h of (out, h) \<Rightarrow> (Some out, h)))"

text \<open>
  \<open>PluginList.DeepCopyInto\<close>, lines 70-81, and \<open>PluginList.DeepCopy\<close>, lines 84-91. The
  memory is a pair: the arrays of the flat elements and the arrays of plugins. The
  loop \<open>for i := range *in\<close> runs over the indices of the items; \<open>copyItems\<close> is the loop
  over the indices still to come.
\<close>

fun copyItems ::
  "'x Collab \<Rightarrow> 'e Zero \<Rightarrow> slice \<Rightarrow> slice \<Rightarrow> nat list \<Rightarrow>
   'e list list \<times> 'x Plugin list list \<Rightarrow> 'e list list \<times> 'x Plugin list list" where
  "copyItems co z src dst [] mem = mem"
| "copyItems co z src dst (i # idx) mem =
     (case mem of (h, ph) \<Rightarrow>
        (case Plugin_DeepCopyInto co z (elems ph src ! i) h of
           (q, h) \<Rightarrow> copyItems co z src dst idx (h, storeAt dst i q ph)))"

definition PluginList_DeepCopyInto ::
  "'x Collab \<Rightarrow> 'e Zero \<Rightarrow> 'x Plugin \<Rightarrow> 'x PluginList \<Rightarrow>
   'e list list \<times> 'x Plugin list list \<Rightarrow>
   'x PluginList \<times> 'e list list \<times> 'x Plugin list list" where
  "PluginList_DeepCopyInto co z zeroPlugin inp mem =
     (let out = inp;
          out = out\<lparr>ListTypeMeta := ListTypeMeta inp\<rparr>;
          out = out\<lparr>ListMeta := ListMeta_DeepCopyInto co (ListMeta inp)\<rparr>
      in (if Items inp \<noteq> NilSlice
          then (case mem of (h, ph) \<Rightarrow>
                  (case make zeroPlugin (len (Items inp)) ph of
                     (s, ph) \<Rightarrow>
                       (out\<lparr>Items := s\<rparr>,
                        copyItems co z (Items inp) s [0 ..< len (Items inp)] (h, ph))))
          else (out, mem)))"

definition PluginList_DeepCopy ::
  "'x Collab \<Rightarrow> 'e Zero \<Rightarrow> 'x Plugin \<Rightarrow> 'x PluginList option \<Rightarrow>
   'e list list \<times> 'x Plugin list list \<Rightarrow>
   'x PluginList option \<times> 'e list list \<times> 'x Plugin list list" where
  "PluginList_DeepCopy co z zeroPlugin inp mem =
     (case inp of
        None \<Rightarrow> (None, mem)
      | Some l \<Rightarrow> (case PluginList_DeepCopyInto co z zeroPlugin l mem of
                    (out, mem) \<Rightarrow> (Some out, mem)))"

subsection \<open>What a struct is worth: values, validity, new arrays\<close>

text \<open>
  Two structs are structurally equal when they have the same value: the fields, with
  every slice replaced by the list of its elements (\<open>None\<close> for a \<open>nil\<close> slice).
\<close>

definition sliceValue :: "'e list list \<Rightarrow> slice \<Rightarrow> 'e list option" where
  "sliceValue h s = (if s = NilSlice then None else Some (elems h s))"

definition pluginValue ::
  "'e list list \<Rightarrow> 'x Plugin \<Rightarrow>
   'x \<times> 'x \<times> ('e list option \<times> 'x \<times> 'e list option \<times> 'x) \<times>
   ('x \<times> 'x \<times> 'x \<times> 'e list option \<times> 'x)" where
  "pluginValue h p =
     (TypeMeta p, ObjectMeta p,
      (sliceValue h (Dependencies (Spec p)), SpecValues (Spec p),
       sliceValue h (ValuesFrom (Spec p)), SpecRest (Spec p)),
      (StatusValues (Status p), CreationTimestamp (Status p), UpgradeTimestamp (Status p),
       sliceValue h (Resources (Status p)), StatusRest (Status p)))"

definition listValue ::
  "'e list list \<times> 'x Plugin list list \<Rightarrow> 'x PluginList \<Rightarrow>
   'x \<times> 'x \<times>
   ('x \<times> 'x \<times> ('e list option \<times> 'x \<times> 'e list option \<times> 'x) \<times>
    ('x \<times> 'x \<times> 'x \<times> 'e list option \<times> 'x)) list option" where
  "listValue mem l =
     (ListTypeMeta l, ListMeta l,
      if Items l = NilSlice then None
      else Some (map (pluginValue (fst mem)) (elems (snd mem) (Items l))))"

definition pluginSlices :: "'x Plugin \<Rightarrow> slice list" where
  "pluginSlices p = [Dependencies (Spec p), ValuesFrom (Spec p), Resources (Status p)]"

text \<open>The addresses of the arrays that the slices of a list point into.\<close>

fun arraysOf :: "slice list \<Rightarrow> nat list" where
  "arraysOf [] = []"
| "arraysOf (NilSlice # ss) = arraysOf ss"
| "arraysOf (Slice a off n # ss) = a # arraysOf ss"

definition validPlugin :: "'e list list \<Rightarrow> 'x Plugin \<Rightarrow> bool" where
  "validPlugin h p = list_all (validSlice h) (pluginSlices p)"

text \<open>
  The collaborators are faithful on a plugin when each returns a copy that equals what
  it copies, for the parts of that plugin.
\<close>

definition faithful :: "'x Collab \<Rightarrow> 'x Plugin \<Rightarrow> bool" where
  "faithful co p =
     (ObjectMeta_DeepCopyInto co (ObjectMeta p) = ObjectMeta p \<and>
      Values_DeepCopy co (SpecValues (Spec p)) = SpecValues (Spec p) \<and>
      Values_DeepCopy co (StatusValues (Status p)) = StatusValues (Status p) \<and>
      Time_DeepCopyInto co (CreationTimestamp (Status p)) = CreationTimestamp (Status p) \<and>
      Time_DeepCopyInto co (UpgradeTimestamp (Status p)) = UpgradeTimestamp (Status p))"

definition validList ::
  "'x Collab \<Rightarrow> 'e list list \<times> 'x Plugin list list \<Rightarrow> 'x PluginList \<Rightarrow> bool" where
  "validList co mem l =
     (validSlice (snd mem) (Items l) \<and>
      list_all (\<lambda>p. validPlugin (fst mem) p \<and> faithful co p) (elems (snd mem) (Items l)) \<and>
      ListMeta_DeepCopyInto co (ListMeta l) = ListMeta l)"

text \<open>The arrays a deep copy of a plugin allocates: one per slice that is not \<open>nil\<close>.\<close>

definition newArrays :: "'e list list \<Rightarrow> 'x Plugin \<Rightarrow> 'e list list" where
  "newArrays h p = map (elems h) (filter (\<lambda>s. s \<noteq> NilSlice) (pluginSlices p))"

text \<open>A plugin in a memory of two arrays, a list of it, and collaborators that copy as is.\<close>

definition plainCollab :: "string Collab" where
  "plainCollab =
     \<lparr>ObjectMeta_DeepCopyInto = (\<lambda>x. x), ListMeta_DeepCopyInto = (\<lambda>x. x),
      Values_DeepCopy = (\<lambda>x. x), Time_DeepCopyInto = (\<lambda>x. x)\<rparr>"

definition emptyZero :: "string Zero" where
  "emptyZero = \<lparr>zeroObjectReference = [], zeroValuesFrom = [], zeroManagedResource = []\<rparr>"

definition somePlugin :: "slice \<Rightarrow> slice \<Rightarrow> slice \<Rightarrow> string Plugin" where
  "somePlugin deps vf res =
     \<lparr>TypeMeta = ''Plugin'', ObjectMeta = ''monitoring'',
      Spec = \<lparr>Dependencies = deps, SpecValues = ''a: 1'', ValuesFrom = vf,
              SpecRest = ''helm''\<rparr>,
      Status = \<lparr>StatusValues = ''a: 1'', CreationTimestamp = ''t0'', UpgradeTimestamp = ''t1'',
                Resources = res, StatusRest = ''Installed''\<rparr>\<rparr>"

definition someMemory :: "string list list" where
  "someMemory = [[''x'', ''dep1'', ''dep2''], [''res1'']]"

definition someList :: "string PluginList" where
  "someList = \<lparr>ListTypeMeta = ''PluginList'', ListMeta = ''rv1'', Items = Slice 0 0 2\<rparr>"

definition somePlugins :: "string Plugin list list" where
  "somePlugins =
     [[somePlugin (Slice 0 1 2) NilSlice (Slice 1 0 1), somePlugin NilSlice (Slice 0 0 1) NilSlice]]"

section \<open>Auxiliary notions for the statements\<close>

text \<open>
  The spec's wording of the new name in phase B, to be compared with \<open>newName\<close>: the
  override entry "if non-empty", else the slug of the old name.
\<close>

definition specNewName :: "Env \<Rightarrow> (string \<Rightarrow> string option) \<Rightarrow> AlertRule \<Rightarrow> string" where
  "specNewName env alertNameMap v =
     (case alertNameMap (Name v) of
        Some newname \<Rightarrow> (if newname \<noteq> [] then newname else KebabCase env (Name v))
      | None \<Rightarrow> KebabCase env (Name v))"

text \<open>
  The override map that the file of a world holds: the mapping of its document, and
  the empty map when the file is missing or empty.
\<close>

definition fileMap :: "World \<Rightarrow> string \<Rightarrow> string option" where
  "fileMap w = (case alertNameMapFile w of Some (MapDoc m) \<Rightarrow> m | _ \<Rightarrow> Map.empty)"

text \<open>Worlds and environments for concrete runs.\<close>

definition envTable :: "string \<Rightarrow> EnvInfo option" where
  "envTable = Map.empty(''c1/ns1'' \<mapsto>
     \<lparr>ClusterName = ''c1'', EnvNamespace = ''ns1'', TenantName = ''t'',
      ProjectName = ''p'', EnvironmentName = ''e''\<rparr>)"

definition world ::
  "(string \<Rightarrow> string option) \<Rightarrow> string option \<Rightarrow> AlertRule list \<Rightarrow> World" where
  "world m audit rows =
     \<lparr>alertNameMapFile = Some (MapDoc m), alertNameChangeRecordFile = audit,
      alert_rules = rows, logs = []\<rparr>"

text \<open>
  A client set in which the lookup of cluster \<open>c2\<close> fails the way Go functions fail,
  with a \<open>nil\<close> client beside the error, and every other lookup and every
  synchronisation succeeds.
\<close>

definition cluster2Down :: SyncEnv where
  "cluster2Down =
     \<lparr>PreloadFind = None,
      ClientOf = (\<lambda>name. if name = ''c2'' then (None, Some (Failure ''cluster not found''))
                          else (Some name, None)),
      SyncAlertRule = (\<lambda>cli v. None)\<rparr>"

text \<open>A legacy monitor rule and a legacy logging rule, each with two levels and two receivers.\<close>

definition someLevels :: "oAlertLevel list" where
  "someLevels =
     [\<lparr>oCompareOp = ''>'', oCompareValue = ''80'', oSeverity = ''error''\<rparr>,
      \<lparr>oCompareOp = ''>'', oCompareValue = ''90'', oSeverity = ''critical''\<rparr>]"

definition someReceivers :: "oAlertReceiver list" where
  "someReceivers =
     [\<lparr>oAlertChannel = \<lparr>ChannelID = 7\<rparr>, oInterval = ''1m''\<rparr>,
      \<lparr>oAlertChannel = \<lparr>ChannelID = 9\<rparr>, oInterval = ''5m''\<rparr>]"

definition someMonitorRule :: MonitorAlertRule where
  "someMonitorRule =
     \<lparr>oNamespace = ''ns1'', oName = ''cpu high'', oExpr = ''cpu_usage'', oMessage = ''cpu'',
      oFor = ''1m'', oInhibitLabels = [''pod''], oIsOpen = True, oAlertLevels = someLevels,
      oReceivers = someReceivers, oChannelStatus = StatusNormal,
      oPromqlGenerator =
        Some \<lparr>oScope = ''containers'', oResource = ''container'', oRule = ''cpuUsage'',
              oUnit = ''percent'', oPromLabelPairs = [(''pod'', ''a|b''), (''node'', ''n1'')]\<rparr>\<rparr>"

definition someLoggingRule :: LoggingAlertRule where
  "someLoggingRule =
     \<lparr>oNamespace = ''ns1'', oName = ''errors'', oExpr = ''count_over_time'', oMessage = ''log'',
      oFor = ''2m'', oInhibitLabels = [], oIsOpen = False, oAlertLevels = someLevels,
      oReceivers = someReceivers, oChannelStatus = StatusOther 1,
      oLogqlGenerator =
        Some \<lparr>oDuration = ''1m'', oMatch = ''error'', oLogLabelPairs = [(''app'', ''x'')]\<rparr>\<rparr>"

section \<open>Properties of the converter\<close>

lemma Contains_single: "Contains s [c] = (c \<in> set s)"
  by (induction s) auto

lemma foldl_appendLevel:
  "foldl appendLevel acc ls =
     acc @ map (\<lambda>l. \<lparr>CompareOp = oCompareOp l, CompareValue = oCompareValue l,
                      Severity = oSeverity l\<rparr>) ls"
  by (induction ls arbitrary: acc) (simp_all add: appendLevel_def)

lemma foldl_appendReceiver:
  "foldl appendReceiver acc rs =
     acc @ map (\<lambda>r. \<lparr>AlertChannelID = ChannelID (oAlertChannel r),
                      Interval = oInterval r\<rparr>) rs"
  by (induction rs arbitrary: acc) (simp_all add: appendReceiver_def)

lemma foldl_appendMatcher:
  "foldl appendMatcher acc kvs =
     acc @ map (\<lambda>kv. \<lparr>Type = matchType (snd kv), LabelName = fst kv, Value = snd kv\<rparr>) kvs"
  by (induction kvs arbitrary: acc) (simp_all add: appendMatcher_def)

text \<open>Both conversions in closed form: the record each one returns.\<close>

lemma convertMonitorAlertRule_eq:
  "convertMonitorAlertRule c m =
     \<lparr>ID = 0, Cluster = c, Namespace = oNamespace m, Name = oName m,
      AlertType = AlertTypeMonitor, Expr = oExpr m, Message = oMessage m, For = oFor m,
      InhibitLabels = oInhibitLabels m, IsOpen = oIsOpen m,
      AlertLevels = map (\<lambda>l. \<lparr>CompareOp = oCompareOp l, CompareValue = oCompareValue l,
                                  Severity = oSeverity l\<rparr>) (oAlertLevels m),
      Receivers = map (\<lambda>r. \<lparr>AlertChannelID = ChannelID (oAlertChannel r),
                                Interval = oInterval r\<rparr>) (oReceivers m),
      PromqlGenerator =
        map_option (\<lambda>g. \<lparr>Scope = oScope g, Resource = oResource g, Rule = oRule g,
                           Unit = oUnit g,
                           PromLabelMatchers =
                             map (\<lambda>kv. \<lparr>Type = matchType (snd kv), LabelName = fst kv,
                                          Value = snd kv\<rparr>) (oPromLabelPairs g)\<rparr>)
          (oPromqlGenerator m),
      LogqlGenerator = None\<rparr>"
  by (simp add: convertMonitorAlertRule_def Let_def foldl_appendLevel foldl_appendReceiver
        foldl_appendMatcher split: option.splits)

lemma convertLoggingAlertRule_eq:
  "convertLoggingAlertRule c l =
     \<lparr>ID = 0, Cluster = c, Namespace = oNamespace l, Name = oName l,
      AlertType = AlertTypeLogging, Expr = oExpr l, Message = oMessage l, For = oFor l,
      InhibitLabels = oInhibitLabels l, IsOpen = oIsOpen l,
      AlertLevels = map (\<lambda>l. \<lparr>CompareOp = oCompareOp l, CompareValue = oCompareValue l,
                                  Severity = oSeverity l\<rparr>) (oAlertLevels l),
      Receivers = map (\<lambda>r. \<lparr>AlertChannelID = ChannelID (oAlertChannel r),
                                Interval = oInterval r\<rparr>) (oReceivers l),
      PromqlGenerator = None,
      LogqlGenerator =
        map_option (\<lambda>g. \<lparr>Duration = oDuration g, Match = oMatch g,
                           LogLabelMatchers =
                             map (\<lambda>kv. \<lparr>Type = matchType (snd kv), LabelName = fst kv,
                                          Value = snd kv\<rparr>) (oLogLabelPairs g)\<rparr>)
          (oLogqlGenerator l)\<rparr>"
  by (simp add: convertLoggingAlertRule_def Let_def foldl_appendLevel foldl_appendReceiver
        foldl_appendMatcher split: option.splits)

text \<open>
  Claim C5. For every string \<open>v\<close>, \<open>matchType v\<close> is the regex match type exactly when
  \<open>v\<close> contains the character \<open>|\<close>, and the equality match type otherwise.
\<close>

theorem matchType_iff_bar:
  "(matchType v = MatchRegexp) = (CHR ''|'' \<in> set v) \<and>
   (matchType v = MatchEqual) = (CHR ''|'' \<notin> set v)"
  by (simp add: matchType_def Contains_single)

text \<open>
  Claim C6. For every legacy monitor rule and every legacy logging rule, the converter
  copies cluster, namespace, name, expression, message, duration, inhibit labels and
  the enabled flag as they are, and maps the severity levels and the receiver bindings
  one to one in the order of the input: the lists have the lengths of the inputs, and
  the \<open>i\<close>-th output is built from the \<open>i\<close>-th input alone.
\<close>

theorem convert_copies_fields:
  "Cluster (convertMonitorAlertRule c m) = c \<and>
   Namespace (convertMonitorAlertRule c m) = oNamespace m \<and>
   Name (convertMonitorAlertRule c m) = oName m \<and>
   Expr (convertMonitorAlertRule c m) = oExpr m \<and>
   Message (convertMonitorAlertRule c m) = oMessage m \<and>
   For (convertMonitorAlertRule c m) = oFor m \<and>
   InhibitLabels (convertMonitorAlertRule c m) = oInhibitLabels m \<and>
   IsOpen (convertMonitorAlertRule c m) = oIsOpen m \<and>
   length (AlertLevels (convertMonitorAlertRule c m)) = length (oAlertLevels m) \<and>
   (\<forall>i < length (oAlertLevels m).
      AlertLevels (convertMonitorAlertRule c m) ! i =
        \<lparr>CompareOp = oCompareOp (oAlertLevels m ! i),
         CompareValue = oCompareValue (oAlertLevels m ! i),
         Severity = oSeverity (oAlertLevels m ! i)\<rparr>) \<and>
   length (Receivers (convertMonitorAlertRule c m)) = length (oReceivers m) \<and>
   (\<forall>i < length (oReceivers m).
      Receivers (convertMonitorAlertRule c m) ! i =
        \<lparr>AlertChannelID = ChannelID (oAlertChannel (oReceivers m ! i)),
         Interval = oInterval (oReceivers m ! i)\<rparr>) \<and>
   Cluster (convertLoggingAlertRule c l) = c \<and>
   Namespace (convertLoggingAlertRule c l) = oNamespace l \<and>
   Name (convertLoggingAlertRule c l) = oName l \<and>
   Expr (convertLoggingAlertRule c l) = oExpr l \<and>
   Message (convertLoggingAlertRule c l) = oMessage l \<and>
   For (convertLoggingAlertRule c l) = oFor l \<and>
   InhibitLabels (convertLoggingAlertRule c l) = oInhibitLabels l \<and>
   IsOpen (convertLoggingAlertRule c l) = oIsOpen l \<and>
   length (AlertLevels (convertLoggingAlertRule c l)) = length (oAlertLevels l) \<and>
   (\<forall>i < length (oAlertLevels l).
      AlertLevels (convertLoggingAlertRule c l) ! i =
        \<lparr>CompareOp = oCompareOp (oAlertLevels l ! i),
         CompareValue = oCompareValue (oAlertLevels l ! i),
         Severity = oSeverity (oAlertLevels l ! i)\<rparr>) \<and>
   length (Receivers (convertLoggingAlertRule c l)) = length (oReceivers l) \<and>
   (\<forall>i < length (oReceivers l).
      Receivers (convertLoggingAlertRule c l) ! i =
        \<lparr>AlertChannelID = ChannelID (oAlertChannel (oReceivers l ! i)),
         Interval = oInterval (oReceivers l ! i)\<rparr>)"
  by (simp add: convertMonitorAlertRule_eq convertLoggingAlertRule_eq)

theorem convert_copies_fields_witness:
  "Name (convertMonitorAlertRule ''c1'' someMonitorRule) = ''cpu high'' \<and>
   AlertLevels (convertMonitorAlertRule ''c1'' someMonitorRule) ! 1 =
     \<lparr>CompareOp = ''>'', CompareValue = ''90'', Severity = ''critical''\<rparr> \<and>
   Receivers (convertMonitorAlertRule ''c1'' someMonitorRule) ! 0 =
     \<lparr>AlertChannelID = 7, Interval = ''1m''\<rparr> \<and>
   IsOpen (convertLoggingAlertRule ''c1'' someLoggingRule) = False \<and>
   AlertLevels (convertLoggingAlertRule ''c1'' someLoggingRule) ! 0 =
     \<lparr>CompareOp = ''>'', CompareValue = ''80'', Severity = ''error''\<rparr> \<and>
   Receivers (convertLoggingAlertRule ''c1'' someLoggingRule) ! 1 =
     \<lparr>AlertChannelID = 9, Interval = ''5m''\<rparr>"
proof -
  have n: "(1::nat) < length (oAlertLevels someMonitorRule)"
    "(0::nat) < length (oReceivers someMonitorRule)"
    "(0::nat) < length (oAlertLevels someLoggingRule)"
    "(1::nat) < length (oReceivers someLoggingRule)"
    by (simp_all add: someMonitorRule_def someLoggingRule_def someLevels_def someReceivers_def)
  show ?thesis
    using convert_copies_fields[of "''c1''" someMonitorRule someLoggingRule] n
    by (simp add: someMonitorRule_def someLoggingRule_def someLevels_def someReceivers_def)
qed

text \<open>
  Claim C7. A rule the converter returns never carries both generators: the monitor
  conversion leaves the log-query generator unset, the logging conversion leaves the
  metric-query generator unset, and each sets its own generator exactly when the
  legacy rule has the descriptor.
\<close>

theorem generators_exclusive:
  "LogqlGenerator (convertMonitorAlertRule c m) = None \<and>
   PromqlGenerator (convertLoggingAlertRule c l) = None \<and>
   (PromqlGenerator (convertMonitorAlertRule c m) = None) = (oPromqlGenerator m = None) \<and>
   (LogqlGenerator (convertLoggingAlertRule c l) = None) = (oLogqlGenerator l = None) \<and>
   \<not> (PromqlGenerator (convertMonitorAlertRule c m) \<noteq> None \<and>
      LogqlGenerator (convertMonitorAlertRule c m) \<noteq> None) \<and>
   \<not> (PromqlGenerator (convertLoggingAlertRule c l) \<noteq> None \<and>
      LogqlGenerator (convertLoggingAlertRule c l) \<noteq> None)"
  by (simp add: convertMonitorAlertRule_eq convertLoggingAlertRule_eq)

section \<open>Properties of the name normalizer\<close>

subsection \<open>The table after the loop\<close>

lemma setName_other: "ID v \<notin> ID ` set rows \<Longrightarrow> setName v n rows = rows"
  unfolding setName_def
proof (rule map_idI)
  fix r assume a: "ID v \<notin> ID ` set rows" and "r \<in> set rows"
  then have "ID r \<in> ID ` set rows" by (rule_tac imageI)
  with a have "ID r \<noteq> ID v" by metis
  then show "(if ID r = ID v then r\<lparr>Name := n\<rparr> else r) = r" by simp
qed

lemma setName_append: "setName v n (xs @ ys) = setName v n xs @ setName v n ys"
  by (simp add: setName_def)

lemma setName_Cons_self: "setName v n (v # ys) = v\<lparr>Name := n\<rparr> # setName v n ys"
  by (simp add: setName_def)

lemma applyRename_step:
  assumes "ID v \<notin> ID ` set pre'" "ID v \<notin> ID ` set vs"
  shows "applyRename f (pre' @ v # vs) v = (pre' @ [v\<lparr>Name := f v\<rparr>]) @ vs"
proof (cases "Name v = f v")
  case True
  then have "v\<lparr>Name := f v\<rparr> = v" by simp
  with True show ?thesis by (simp add: applyRename_def)
next
  case False
  then show ?thesis
    using assms by (simp add: applyRename_def setName_append setName_Cons_self setName_other)
qed

lemma foldl_applyRename:
  "distinct (map ID (pre @ vs @ post)) \<Longrightarrow> map ID pre' = map ID pre \<Longrightarrow>
   foldl (applyRename f) (pre' @ vs @ post) vs
     = pre' @ map (\<lambda>v. v\<lparr>Name := f v\<rparr>) vs @ post"
proof (induction vs arbitrary: pre pre')
  case Nil
  then show ?case by simp
next
  case (Cons v vs)
  have "set (map ID pre') = set (map ID pre)" using Cons.prems(2) by simp
  then have d: "ID v \<notin> ID ` set pre'" "ID v \<notin> ID ` set (vs @ post)"
    using Cons.prems(1) by auto
  have "foldl (applyRename f) ((pre' @ [v\<lparr>Name := f v\<rparr>]) @ vs @ post) vs
        = (pre' @ [v\<lparr>Name := f v\<rparr>]) @ map (\<lambda>v. v\<lparr>Name := f v\<rparr>) vs @ post"
    by (rule Cons.IH[of "pre @ [v]"]) (use Cons.prems in auto)
  then show ?case
    using applyRename_step[OF d, of f] by simp
qed

lemma foldl_applyRename_prefix:
  assumes "distinct (map ID (vs @ post))"
  shows "foldl (applyRename f) (vs @ post) vs = map (\<lambda>v. v\<lparr>Name := f v\<rparr>) vs @ post"
  using foldl_applyRename[of "[]" vs post "[]" f] assms by simp

subsection \<open>The loop of phase B\<close>

lemma renameRules_ok:
  "renameRules env m ei vs recs w = (Inr recs', w') \<Longrightarrow>
     recs' = recs @ map (\<lambda>v. auditRecord ei v (newName env m v)) vs \<and>
     alert_rules w' = foldl (applyRename (newName env m)) (alert_rules w) vs \<and>
     (\<forall>v\<in>set vs. IsValidAlertRuleName env (newName env m v) = None)"
proof (induction vs arbitrary: recs w)
  case Nil
  then show ?case by simp
next
  case (Cons v vs)
  show ?case
  proof (cases "Name v = newName env m v")
    case True
    with Cons.prems have
      ok: "IsValidAlertRuleName env (newName env m v) = None" and
      rest: "renameRules env m ei vs (recs @ [auditRecord ei v (newName env m v)]) w = (Inr recs', w')"
      by (auto simp: Let_def split: option.splits)
    from Cons.IH[OF rest] ok True show ?thesis by (simp add: applyRename_def)
  next
    case False
    with Cons.prems have
      ok: "IsValidAlertRuleName env (newName env m v) = None" and
      rest: "renameRules env m ei vs (recs @ [auditRecord ei v (newName env m v)])
               (w\<lparr>logs := logs w @ [UpdateAlertRuleName v (newName env m v)],
                  alert_rules := setName v (newName env m v) (alert_rules w)\<rparr>) = (Inr recs', w')"
      by (auto simp: Let_def split: option.splits)
    from Cons.IH[OF rest] ok False show ?thesis by (simp add: applyRename_def)
  qed
qed

lemma renameRules_files:
  "renameRules env m ei vs recs w = (res, w') \<Longrightarrow>
     alertNameChangeRecordFile w' = alertNameChangeRecordFile w \<and>
     alertNameMapFile w' = alertNameMapFile w"
proof (induction vs arbitrary: recs w)
  case Nil
  then show ?case by auto
next
  case (Cons v vs)
  show ?case
  proof (cases "IsValidAlertRuleName env (newName env m v)")
    case (Some e)
    with Cons.prems show ?thesis by (auto simp: Let_def)
  next
    case None
    show ?thesis
    proof (cases "Name v = newName env m v")
      case True
      with None Cons.prems have
        "renameRules env m ei vs (recs @ [auditRecord ei v (newName env m v)]) w = (res, w')"
        by (simp add: Let_def)
      from Cons.IH[OF this] show ?thesis .
    next
      case False
      show ?thesis
      proof (cases "Update env v (newName env m v)")
        case (Some e)
        with None False Cons.prems show ?thesis by (auto simp: Let_def)
      next
        case N2: None
        with None False Cons.prems have
          "renameRules env m ei vs (recs @ [auditRecord ei v (newName env m v)])
               (w\<lparr>logs := logs w @ [UpdateAlertRuleName v (newName env m v)],
                  alert_rules := setName v (newName env m v) (alert_rules w)\<rparr>) = (res, w')"
          by (simp add: Let_def)
        from Cons.IH[OF this] show ?thesis by simp
      qed
    qed
  qed
qed

lemma setName_rows:
  "r' \<in> set (setName v n rows) \<Longrightarrow> r' \<in> set rows \<or> Name r' = n"
  by (auto simp: setName_def split: if_splits)

lemma renameRules_rows:
  "renameRules env m ei vs recs w = (res, w') \<Longrightarrow> r' \<in> set (alert_rules w') \<Longrightarrow>
     r' \<in> set (alert_rules w) \<or> IsValidAlertRuleName env (Name r') = None"
proof (induction vs arbitrary: recs w)
  case Nil
  then show ?case by auto
next
  case (Cons v vs)
  show ?case
  proof (cases "IsValidAlertRuleName env (newName env m v)")
    case (Some e)
    with Cons.prems show ?thesis by (auto simp: Let_def)
  next
    case None
    show ?thesis
    proof (cases "Name v = newName env m v")
      case True
      with None Cons.prems(1) have
        "renameRules env m ei vs (recs @ [auditRecord ei v (newName env m v)]) w = (res, w')"
        by (simp add: Let_def)
      from Cons.IH[OF this Cons.prems(2)] show ?thesis .
    next
      case False
      show ?thesis
      proof (cases "Update env v (newName env m v)")
        case (Some e)
        with None False Cons.prems show ?thesis by (auto simp: Let_def)
      next
        case N2: None
        with None False Cons.prems(1) have
          "renameRules env m ei vs (recs @ [auditRecord ei v (newName env m v)])
               (w\<lparr>logs := logs w @ [UpdateAlertRuleName v (newName env m v)],
                  alert_rules := setName v (newName env m v) (alert_rules w)\<rparr>) = (res, w')"
          by (simp add: Let_def)
        from Cons.IH[OF this Cons.prems(2)]
        have "r' \<in> set (setName v (newName env m v) (alert_rules w)) \<or>
              IsValidAlertRuleName env (Name r') = None" by simp
        then show ?thesis using setName_rows[of r' v "newName env m v" "alert_rules w"] None
          by auto
      qed
    qed
  qed
qed

lemma renameRules_abort:
  "\<forall>u\<in>set pre. IsValidAlertRuleName env (newName env m u) = None \<and>
               Update env u (newName env m u) = None \<Longrightarrow>
   IsValidAlertRuleName env (newName env m v) = Some err \<Longrightarrow>
   renameRules env m ei (pre @ v # post) recs w = (res, w') \<Longrightarrow>
     res = Inl err \<and>
     alert_rules w' = foldl (applyRename (newName env m)) (alert_rules w) pre"
proof (induction pre arbitrary: recs w)
  case Nil
  then show ?case by (auto simp: Let_def)
next
  case (Cons u pre)
  have ok: "IsValidAlertRuleName env (newName env m u) = None"
    and up: "Update env u (newName env m u) = None"
    and rest: "\<forall>u\<in>set pre. IsValidAlertRuleName env (newName env m u) = None \<and>
               Update env u (newName env m u) = None"
    using Cons.prems(1) by auto
  show ?case
  proof (cases "Name u = newName env m u")
    case True
    with ok Cons.prems(3) have
      "renameRules env m ei (pre @ v # post) (recs @ [auditRecord ei u (newName env m u)]) w = (res, w')"
      by (simp add: Let_def)
    from Cons.IH[OF rest Cons.prems(2) this] True show ?thesis by (simp add: applyRename_def)
  next
    case False
    with ok up Cons.prems(3) have
      "renameRules env m ei (pre @ v # post) (recs @ [auditRecord ei u (newName env m u)])
         (w\<lparr>logs := logs w @ [UpdateAlertRuleName u (newName env m u)],
            alert_rules := setName u (newName env m u) (alert_rules w)\<rparr>) = (res, w')"
      by (simp add: Let_def)
    from Cons.IH[OF rest Cons.prems(2) this] False show ?thesis by (simp add: applyRename_def)
  qed
qed

lemma alert_rules_writeRecordFile [simp]:
  "alert_rules (writeRecordFile env records w) = alert_rules w"
  by (simp add: writeRecordFile_def)

lemma phaseB_success:
  assumes run: "fst (updateAlertRuleNameInDB env w) = None"
      and mf: "alertNameMapFile w = Some (MapDoc m)"
  shows "\<exists>ei records w1.
           ClusterNS2EnvMap env = Inr ei \<and>
           renameRules env m ei (alert_rules w) [] (w\<lparr>alertNameMapFile := Some (MapDoc m)\<rparr>)
             = (Inr records, w1) \<and>
           snd (updateAlertRuleNameInDB env w) = writeRecordFile env records w1"
  using run mf
  by (auto simp: updateAlertRuleNameInDB_def openCreate_def Let_def
           split: option.splits sum.splits prod.splits)

lemma phaseB_prelude:
  assumes "OpenMapFile env = None" "alertNameMapFile w = Some (MapDoc m)" "Find env = None"
    "ClusterNS2EnvMap env = Inr ei"
  shows "updateAlertRuleNameInDB env w =
           (case renameRules env m ei (alert_rules w) [] w of
              (Inl err, w') \<Rightarrow> (Some err, w')
            | (Inr records, w') \<Rightarrow> (None, writeRecordFile env records w'))"
proof -
  have same: "w\<lparr>alertNameMapFile := Some (MapDoc m)\<rparr> = w"
    using assms(2) by simp
  show ?thesis
    using assms by (simp add: updateAlertRuleNameInDB_def openCreate_def same)
qed

lemma phaseB_rows:
  "r' \<in> set (alert_rules (snd (updateAlertRuleNameInDB env w))) \<Longrightarrow>
     r' \<in> set (alert_rules w) \<or> IsValidAlertRuleName env (Name r') = None"
proof -
  assume a: "r' \<in> set (alert_rules (snd (updateAlertRuleNameInDB env w)))"
  show ?thesis
  proof (cases "\<exists>m ei. OpenMapFile env = None \<and> Decode (openCreate (alertNameMapFile w)) = Inr m \<and>
                  Find env = None \<and> ClusterNS2EnvMap env = Inr ei")
    case False
    then have "alert_rules (snd (updateAlertRuleNameInDB env w)) = alert_rules w"
      by (auto simp: updateAlertRuleNameInDB_def Let_def split: option.splits sum.splits)
    with a show ?thesis by simp
  next
    case True
    then obtain m ei where p: "OpenMapFile env = None"
      "Decode (openCreate (alertNameMapFile w)) = Inr m" "Find env = None"
      "ClusterNS2EnvMap env = Inr ei" by blast
    let ?w0 = "w\<lparr>alertNameMapFile := Some (openCreate (alertNameMapFile w))\<rparr>"
    obtain res w' where loop: "renameRules env m ei (alert_rules w) [] ?w0 = (res, w')"
      by (cases "renameRules env m ei (alert_rules w) [] ?w0") auto
    have "alert_rules (snd (updateAlertRuleNameInDB env w)) = alert_rules w'"
      using p loop by (cases res) (simp_all add: updateAlertRuleNameInDB_def Let_def)
    with a have "r' \<in> set (alert_rules w')" by simp
    from renameRules_rows[OF loop this] show ?thesis by simp
  qed
qed

lemma phaseB_invalid_fails:
  assumes mf: "alertNameMapFile w = Some (MapDoc m)"
    and v: "v \<in> set (alert_rules w)"
    and bad: "IsValidAlertRuleName env (newName env m v) \<noteq> None"
  shows "fst (updateAlertRuleNameInDB env w) \<noteq> None"
proof
  assume run: "fst (updateAlertRuleNameInDB env w) = None"
  from phaseB_success[OF run mf] obtain ei records w1 where
    loop: "renameRules env m ei (alert_rules w) [] (w\<lparr>alertNameMapFile := Some (MapDoc m)\<rparr>)
             = (Inr records, w1)"
    by blast
  from renameRules_ok[OF loop] v have "IsValidAlertRuleName env (newName env m v) = None"
    by blast
  with bad show False by simp
qed

lemma phaseB_audit_file:
  assumes run: "fst (updateAlertRuleNameInDB env w) = None"
      and mf: "alertNameMapFile w = Some (MapDoc m)"
      and ei: "ClusterNS2EnvMap env = Inr ei"
      and op: "OpenRecordFile env"
  shows "alertNameChangeRecordFile (snd (updateAlertRuleNameInDB env w)) =
           Some (writeAt0 (case alertNameChangeRecordFile w of None \<Rightarrow> [] | Some old \<Rightarrow> old)
                  (auditBytes env
                     (map (\<lambda>v. auditRecord ei v (newName env m v)) (alert_rules w))))"
proof -
  from phaseB_success[OF run mf] ei obtain records w1 where
    loop: "renameRules env m ei (alert_rules w) [] (w\<lparr>alertNameMapFile := Some (MapDoc m)\<rparr>)
             = (Inr records, w1)"
    and out: "snd (updateAlertRuleNameInDB env w) = writeRecordFile env records w1"
    by auto
  from renameRules_ok[OF loop]
  have recs: "records = map (\<lambda>v. auditRecord ei v (newName env m v)) (alert_rules w)"
    by simp
  from renameRules_files[OF loop]
  have "alertNameChangeRecordFile w1 = alertNameChangeRecordFile w"
    by simp
  then show ?thesis
    using out recs op by (simp add: writeRecordFile_def)
qed

subsection \<open>The claims about phase B\<close>

text \<open>
  Claim C1, as amended. In a run of phase B that succeeds, every persisted rule gets
  as its new name the entry of the override map for its old name whenever the map has
  an entry for that name, be the entry empty or not, and the slug (\<open>KebabCase\<close>) of
  the old name when the map has no entry; nothing else of the rule changes. The keys
  of the persisted rules are distinct, as primary keys are.
\<close>

theorem phaseB_new_names:
  assumes run: "fst (updateAlertRuleNameInDB env w) = None"
      and mf: "alertNameMapFile w = Some (MapDoc m)"
      and ids: "distinct (map ID (alert_rules w))"
  shows "alert_rules (snd (updateAlertRuleNameInDB env w)) =
           map (\<lambda>v. v\<lparr>Name := (case m (Name v) of
                                   Some newname \<Rightarrow> newname
                                 | None \<Rightarrow> KebabCase env (Name v))\<rparr>)
               (alert_rules w)"
proof -
  from phaseB_success[OF run mf] obtain ei records w1 where
    loop: "renameRules env m ei (alert_rules w) [] (w\<lparr>alertNameMapFile := Some (MapDoc m)\<rparr>)
             = (Inr records, w1)"
    and out: "snd (updateAlertRuleNameInDB env w) = writeRecordFile env records w1"
    by blast
  from renameRules_ok[OF loop]
  have "alert_rules w1 = foldl (applyRename (newName env m)) (alert_rules w) (alert_rules w)"
    by simp
  also have "\<dots> = map (\<lambda>v. v\<lparr>Name := newName env m v\<rparr>) (alert_rules w)"
    using foldl_applyRename_prefix[of "alert_rules w" "[]" "newName env m"] ids by simp
  finally show ?thesis
    by (simp add: out newName_def)
qed

theorem phaseB_new_names_witness:
  "alert_rules (snd (updateAlertRuleNameInDB (goodEnv envTable)
      (world (Map.empty(''My Rule'' \<mapsto> ''my-custom-rule'')) None
         [rule 1 ''c1'' ''ns1'' ''Foo Bar'', rule 2 ''c1'' ''ns1'' ''My Rule'',
          rule 3 ''c1'' ''ns1'' ''cpu-high'']))) =
   [rule 1 ''c1'' ''ns1'' ''foo-bar'', rule 2 ''c1'' ''ns1'' ''my-custom-rule'',
    rule 3 ''c1'' ''ns1'' ''cpu-high'']"
proof -
  let ?m = "Map.empty(''My Rule'' \<mapsto> ''my-custom-rule'')"
  let ?rows = "[rule 1 ''c1'' ''ns1'' ''Foo Bar'', rule 2 ''c1'' ''ns1'' ''My Rule'',
                rule 3 ''c1'' ''ns1'' ''cpu-high'']"
  let ?w = "world ?m None ?rows"
  have run: "fst (updateAlertRuleNameInDB (goodEnv envTable) ?w) = None"
    by code_simp
  have mf: "alertNameMapFile ?w = Some (MapDoc ?m)"
    by (simp add: world_def)
  have ids: "distinct (map ID (alert_rules ?w))"
    by (simp add: world_def rule_def)
  have k: "strcase_KebabCase ''Foo Bar'' = ''foo-bar''" "strcase_KebabCase ''cpu-high'' = ''cpu-high''"
    by code_simp+
  show ?thesis
    using phaseB_new_names[OF run mf ids] k
    by (simp add: world_def rule_def goodEnv_def)
qed

text \<open>
  The claim as the spec words it fails where the override entry is empty: for the rule
  "Foo Bar" with the entry \<open>"Foo Bar": ""\<close> the code computes the empty name, the spec's
  wording the slug "foo-bar". The empty name then goes to the check; with a check that
  refuses it the run stops there, and the rule keeps its old name.
\<close>

theorem newName_empty_override_counterexample:
  "newName (goodEnv envTable) (Map.empty(''Foo Bar'' \<mapsto> []))
     (rule 1 ''c1'' ''ns1'' ''Foo Bar'') = [] \<and>
   specNewName (goodEnv envTable) (Map.empty(''Foo Bar'' \<mapsto> []))
     (rule 1 ''c1'' ''ns1'' ''Foo Bar'') = ''foo-bar'' \<and>
   newName (goodEnv envTable) (Map.empty(''Foo Bar'' \<mapsto> []))
     (rule 1 ''c1'' ''ns1'' ''Foo Bar'') \<noteq>
   specNewName (goodEnv envTable) (Map.empty(''Foo Bar'' \<mapsto> []))
     (rule 1 ''c1'' ''ns1'' ''Foo Bar'') \<and>
   fst (updateAlertRuleNameInDB (goodEnv envTable)
          (world (Map.empty(''Foo Bar'' \<mapsto> [])) None [rule 1 ''c1'' ''ns1'' ''Foo Bar'']))
     = Some (Failure ''invalid alert rule name'') \<and>
   map Name (alert_rules (snd (updateAlertRuleNameInDB (goodEnv envTable)
          (world (Map.empty(''Foo Bar'' \<mapsto> [])) None [rule 1 ''c1'' ''ns1'' ''Foo Bar'']))))
     = [''Foo Bar'']"
  by code_simp

text \<open>
  Claim C2. Phase B validates every new name before it writes it: whatever the run
  returns, each row of the table afterwards is a row from before the run or carries a
  name that passed \<open>IsValidAlertRuleName\<close>; when the new name of some persisted rule
  fails the check, the run returns an error; and at a rule whose new name fails, the
  loop stops with that error and leaves the world as it found it.
\<close>

theorem phaseB_never_persists_invalid:
  "(\<forall>r' \<in> set (alert_rules (snd (updateAlertRuleNameInDB env w))).
       r' \<in> set (alert_rules w) \<or> IsValidAlertRuleName env (Name r') = None) \<and>
   (alertNameMapFile w = Some (MapDoc m) \<longrightarrow>
      (\<exists>v \<in> set (alert_rules w). IsValidAlertRuleName env (newName env m v) \<noteq> None) \<longrightarrow>
      fst (updateAlertRuleNameInDB env w) \<noteq> None) \<and>
   (IsValidAlertRuleName env (newName env m v) = Some err \<longrightarrow>
      renameRules env m ei (v # vs) recs w0 = (Inl err, w0))"
  using phaseB_rows[of _ env w] phaseB_invalid_fails[of w m _ env]
  by (auto simp: Let_def)

theorem phaseB_never_persists_invalid_witness:
  "fst (updateAlertRuleNameInDB (goodEnv envTable)
          (world Map.empty None
             [rule 1 ''c1'' ''ns1'' ''Foo Bar'', rule 2 ''c1'' ''ns1'' ''Bad/Name''])) \<noteq> None \<and>
   IsValidAlertRuleName (goodEnv envTable) ''foo-bar'' = None \<and>
   renameRules (goodEnv envTable) Map.empty envTable [rule 2 ''c1'' ''ns1'' ''Bad/Name''] []
       (world Map.empty None [rule 2 ''c1'' ''ns1'' ''Bad/Name''])
     = (Inl (Failure ''invalid alert rule name''),
        world Map.empty None [rule 2 ''c1'' ''ns1'' ''Bad/Name''])"
proof -
  let ?env = "goodEnv envTable"
  let ?bad = "rule 2 ''c1'' ''ns1'' ''Bad/Name''"
  let ?w = "world Map.empty None [rule 1 ''c1'' ''ns1'' ''Foo Bar'', ?bad]"
  let ?r = "rule 1 ''c1'' ''ns1'' ''foo-bar''"
  have mf: "alertNameMapFile ?w = Some (MapDoc Map.empty)"
    by (simp add: world_def)
  have bad: "IsValidAlertRuleName ?env (newName ?env Map.empty ?bad)
               = Some (Failure ''invalid alert rule name'')"
    by code_simp
  have mem: "?bad \<in> set (alert_rules ?w)"
    by (simp add: world_def)
  have after: "?r \<in> set (alert_rules (snd (updateAlertRuleNameInDB ?env ?w)))"
    by code_simp
  have before: "?r \<notin> set (alert_rules ?w)"
    by (simp add: world_def rule_def)
  have name: "Name ?r = ''foo-bar''"
    by (simp add: rule_def)
  note inst = phaseB_never_persists_invalid[of ?env ?w Map.empty ?bad
      "Failure ''invalid alert rule name''" envTable "[]" "[]"
      "world Map.empty None [?bad]"]
  from inst after before name have c1: "IsValidAlertRuleName ?env ''foo-bar'' = None"
    by auto
  from inst mf mem bad have c2: "fst (updateAlertRuleNameInDB ?env ?w) \<noteq> None"
    by (metis option.distinct(1))
  from inst bad have c3: "renameRules ?env Map.empty envTable [?bad] []
       (world Map.empty None [?bad])
     = (Inl (Failure ''invalid alert rule name''), world Map.empty None [?bad])"
    by blast
  from c1 c2 c3 show ?thesis by blast
qed

text \<open>
  Claim C9. When the check fails at the \<open>k\<close>-th rule and the rules before it passed
  and were updated, phase B returns that error, the table holds the new names of the
  rules before the \<open>k\<close>-th and the old rows from the \<open>k\<close>-th on, and the audit file
  is as it was: no marker, no header and none of the gathered records is written.
\<close>

theorem phaseB_abort_keeps_updates_no_audit:
  assumes "OpenMapFile env = None" "alertNameMapFile w = Some (MapDoc m)" "Find env = None"
    "ClusterNS2EnvMap env = Inr ei"
    and rows: "alert_rules w = pre @ v # post"
    and ids: "distinct (map ID (alert_rules w))"
    and ok: "\<forall>u\<in>set pre. IsValidAlertRuleName env (newName env m u) = None \<and>
                         Update env u (newName env m u) = None"
    and bad: "IsValidAlertRuleName env (newName env m v) = Some err"
  shows "fst (updateAlertRuleNameInDB env w) = Some err \<and>
         alert_rules (snd (updateAlertRuleNameInDB env w)) =
           map (\<lambda>u. u\<lparr>Name := newName env m u\<rparr>) pre @ v # post \<and>
         alertNameChangeRecordFile (snd (updateAlertRuleNameInDB env w)) =
           alertNameChangeRecordFile w"
proof -
  obtain res w' where loop: "renameRules env m ei (pre @ v # post) [] w = (res, w')"
    by (cases "renameRules env m ei (pre @ v # post) [] w") auto
  from renameRules_abort[OF ok bad loop]
  have res: "res = Inl err"
    and tab: "alert_rules w' = foldl (applyRename (newName env m)) (alert_rules w) pre"
    by auto
  have "foldl (applyRename (newName env m)) (pre @ v # post) pre =
          map (\<lambda>u. u\<lparr>Name := newName env m u\<rparr>) pre @ v # post"
    using foldl_applyRename_prefix[of pre "v # post" "newName env m"] ids rows by simp
  with tab rows have tab': "alert_rules w' = map (\<lambda>u. u\<lparr>Name := newName env m u\<rparr>) pre @ v # post"
    by simp
  have "updateAlertRuleNameInDB env w = (Some err, w')"
    using phaseB_prelude[OF assms(1-4)] loop res rows by simp
  then show ?thesis
    using tab' renameRules_files[OF loop] by simp
qed

theorem phaseB_abort_keeps_updates_no_audit_witness:
  "fst (updateAlertRuleNameInDB (goodEnv envTable)
          (world Map.empty (Some ''old'')
             [rule 1 ''c1'' ''ns1'' ''Foo Bar'', rule 2 ''c1'' ''ns1'' ''Bad/Name'',
              rule 3 ''c1'' ''ns1'' ''Other One''])) = Some (Failure ''invalid alert rule name'') \<and>
   alert_rules (snd (updateAlertRuleNameInDB (goodEnv envTable)
          (world Map.empty (Some ''old'')
             [rule 1 ''c1'' ''ns1'' ''Foo Bar'', rule 2 ''c1'' ''ns1'' ''Bad/Name'',
              rule 3 ''c1'' ''ns1'' ''Other One''])))
     = [rule 1 ''c1'' ''ns1'' ''foo-bar'', rule 2 ''c1'' ''ns1'' ''Bad/Name'',
        rule 3 ''c1'' ''ns1'' ''Other One''] \<and>
   alertNameChangeRecordFile (snd (updateAlertRuleNameInDB (goodEnv envTable)
          (world Map.empty (Some ''old'')
             [rule 1 ''c1'' ''ns1'' ''Foo Bar'', rule 2 ''c1'' ''ns1'' ''Bad/Name'',
              rule 3 ''c1'' ''ns1'' ''Other One''])))
     = Some ''old''"
proof -
  let ?env = "goodEnv envTable"
  let ?r1 = "rule 1 ''c1'' ''ns1'' ''Foo Bar''"
  let ?r2 = "rule 2 ''c1'' ''ns1'' ''Bad/Name''"
  let ?r3 = "rule 3 ''c1'' ''ns1'' ''Other One''"
  let ?w = "world Map.empty (Some ''old'') [?r1, ?r2, ?r3]"
  have e: "OpenMapFile ?env = None" "Find ?env = None" "ClusterNS2EnvMap ?env = Inr envTable"
    by (simp_all add: goodEnv_def)
  have mf: "alertNameMapFile ?w = Some (MapDoc Map.empty)"
    by (simp add: world_def)
  have rows: "alert_rules ?w = [?r1] @ ?r2 # [?r3]"
    by (simp add: world_def)
  have ids: "distinct (map ID (alert_rules ?w))"
    by (simp add: world_def rule_def)
  have ok1: "IsValidAlertRuleName ?env (newName ?env Map.empty ?r1) = None"
    by code_simp
  have ok2: "Update ?env ?r1 (newName ?env Map.empty ?r1) = None"
    by (simp add: goodEnv_def)
  have ok: "\<forall>u\<in>set [?r1]. IsValidAlertRuleName ?env (newName ?env Map.empty u) = None \<and>
                             Update ?env u (newName ?env Map.empty u) = None"
    using ok1 ok2 by simp
  have bad: "IsValidAlertRuleName ?env (newName ?env Map.empty ?r2)
               = Some (Failure ''invalid alert rule name'')"
    by code_simp
  have nn: "newName ?env Map.empty ?r1 = ''foo-bar''"
    by code_simp
  show ?thesis
    using phaseB_abort_keeps_updates_no_audit[OF e(1) mf e(2) e(3) rows ids ok bad] nn
    by (simp add: world_def rule_def)
qed

text \<open>
  Claim C3. The audit file after a successful run of phase B. The code writes the
  byte-order marker, the header row and one record per persisted rule from offset 0 of
  the file, and does not truncate it: after a run over an audit file that was longer
  than the new content, the old bytes beyond the new content are still there. Here the
  old file came from a run that renamed "My Rule" to "mr", and the new run finds the
  rule "mr".
\<close>

theorem audit_file_not_truncated:
  "fst (updateAlertRuleNameInDB (goodEnv envTable)
     (world Map.empty
        (Some (auditBytes (goodEnv envTable) [[''My Rule'', ''mr'', ''c1'', ''ns1'', ''t'', ''p'', ''e'']]))
        [rule 1 ''c1'' ''ns1'' ''mr''])) = None \<and>
   alertNameChangeRecordFile (snd (updateAlertRuleNameInDB (goodEnv envTable)
     (world Map.empty
        (Some (auditBytes (goodEnv envTable) [[''My Rule'', ''mr'', ''c1'', ''ns1'', ''t'', ''p'', ''e'']]))
        [rule 1 ''c1'' ''ns1'' ''mr''])))
   = Some (auditBytes (goodEnv envTable) [[''mr'', ''mr'', ''c1'', ''ns1'', ''t'', ''p'', ''e'']]
           @ '',p,e'' @ [CHR 0x0A])"
  by code_simp

subsection \<open>Phase A\<close>

lemma foldl_addName_at:
  "fst (foldl addName (m, lg) ns) k =
     (case m k of Some v \<Rightarrow> Some v | None \<Rightarrow> if k \<in> set ns then Some [] else None)"
proof (induction ns arbitrary: m lg)
  case Nil
  then show ?case by (simp split: option.splits)
next
  case (Cons n ns)
  show ?case
  proof (cases "m n")
    case None
    then have "foldl addName (m, lg) (n # ns) =
                 foldl addName (m(n \<mapsto> []), lg @ [AddNewAlertName n]) ns"
      by (simp add: addName_def)
    then show ?thesis
      using None by (simp add: Cons.IH split: option.splits)
  next
    case (Some a)
    then have "foldl addName (m, lg) (n # ns) = foldl addName (m, lg) ns"
      by (simp add: addName_def)
    then show ?thesis
      using Some by (auto simp: Cons.IH split: option.splits)
  qed
qed

lemma foldl_addName_fst:
  "fst (foldl addName (m, lg) ns) =
     (\<lambda>k. case m k of Some v \<Rightarrow> Some v | None \<Rightarrow> if k \<in> set ns then Some [] else None)"
  by (rule ext) (rule foldl_addName_at)

lemma foldl_addName_known:
  "\<forall>n\<in>set ns. m n \<noteq> None \<Longrightarrow> foldl addName (m, lg) ns = (m, lg)"
  by (induction ns) (auto simp: addName_def split: option.splits)

lemma Decode_openCreate:
  "(case Decode (openCreate f) of
      Inl err \<Rightarrow> (if err \<noteq> EOF then Inl err else Inr Map.empty)
    | Inr m \<Rightarrow> Inr m) = Inr m0 \<Longrightarrow>
   m0 = (case f of Some (MapDoc m) \<Rightarrow> m | _ \<Rightarrow> Map.empty)"
  by (cases f; cases "openCreate f") (auto simp: openCreate_def split: if_splits)

text \<open>
  Claim C4. A run of phase A that succeeds leaves every entry of the override map as
  it was and adds, with the empty value, exactly the selected names that had no entry;
  a second run on the world the first one left changes nothing: it succeeds and leaves
  that world, override map included, as it is.
\<close>

theorem phaseA_merge_idempotent:
  assumes run: "fst (updateAlertNameMapInFile env w) = None"
  shows "fileMap (snd (updateAlertNameMapInFile env w)) =
           (\<lambda>k. case fileMap w k of
                   Some v \<Rightarrow> Some v
                 | None \<Rightarrow> if k \<in> set (selectNames (alert_rules w)) then Some [] else None) \<and>
         updateAlertNameMapInFile env (snd (updateAlertNameMapInFile env w)) =
           (None, snd (updateAlertNameMapInFile env w))"
proof -
  let ?f = "openCreate (alertNameMapFile w)"
  let ?dec = "case Decode ?f of
                Inl err \<Rightarrow> (if err \<noteq> EOF then Inl err else Inr Map.empty)
              | Inr m \<Rightarrow> Inr m"
  from run have env: "OpenMapFile env = None" "RawScan env = None" "WriteMapFile env = None"
    by (auto simp: updateAlertNameMapInFile_def Let_def split: option.splits sum.splits)
  from run obtain m0 where dec: "?dec = Inr m0"
    by (cases ?dec) (auto simp: updateAlertNameMapInFile_def Let_def env split: option.splits)
  have m0: "m0 = fileMap w"
    using Decode_openCreate[OF dec] by (simp add: fileMap_def)
  let ?st = "foldl addName (m0, logs w) (selectNames (alert_rules w))"
  let ?w' = "w\<lparr>alertNameMapFile := Some (MapDoc (fst ?st)), logs := snd ?st\<rparr>"
  have out: "updateAlertNameMapInFile env w = (None, ?w')"
    using env dec by (simp add: updateAlertNameMapInFile_def Let_def selectNames_def)
  have st: "fst ?st = (\<lambda>k. case m0 k of
                   Some v \<Rightarrow> Some v
                 | None \<Rightarrow> if k \<in> set (selectNames (alert_rules w)) then Some [] else None)"
    using foldl_addName_fst[of m0 "logs w" "selectNames (alert_rules w)"] .
  have known: "\<forall>n\<in>set (selectNames (alert_rules w)). fst ?st n \<noteq> None"
    by (auto simp: st split: option.splits)
  have again: "foldl addName (fst ?st, snd ?st) (selectNames (alert_rules w)) = (fst ?st, snd ?st)"
    by (rule foldl_addName_known[OF known])
  have names: "selectNames (alert_rules ?w') = selectNames (alert_rules w)"
    by (simp add: selectNames_def)
  have second: "updateAlertNameMapInFile env ?w' = (None, ?w')"
    using env again names
    by (simp add: updateAlertNameMapInFile_def Let_def openCreate_def selectNames_def)
  show ?thesis
    using out st second m0 by (simp add: fileMap_def)
qed


theorem phaseA_merge_idempotent_witness:
  "fileMap (snd (updateAlertNameMapInFile (goodEnv envTable)
       (world (Map.empty(''My Rule'' \<mapsto> ''my-custom-rule'')) None
          [rule 1 ''c1'' ''ns1'' ''My Rule'', rule 2 ''c1'' ''ns1'' ''Foo Bar'',
           rule 3 ''c1'' ''ns1'' ''cpu-high'']))) ''My Rule'' = Some ''my-custom-rule'' \<and>
   fileMap (snd (updateAlertNameMapInFile (goodEnv envTable)
       (world (Map.empty(''My Rule'' \<mapsto> ''my-custom-rule'')) None
          [rule 1 ''c1'' ''ns1'' ''My Rule'', rule 2 ''c1'' ''ns1'' ''Foo Bar'',
           rule 3 ''c1'' ''ns1'' ''cpu-high'']))) ''Foo Bar'' = Some [] \<and>
   fileMap (snd (updateAlertNameMapInFile (goodEnv envTable)
       (world (Map.empty(''My Rule'' \<mapsto> ''my-custom-rule'')) None
          [rule 1 ''c1'' ''ns1'' ''My Rule'', rule 2 ''c1'' ''ns1'' ''Foo Bar'',
           rule 3 ''c1'' ''ns1'' ''cpu-high'']))) ''cpu-high'' = None \<and>
   fst (updateAlertNameMapInFile (goodEnv envTable)
     (snd (updateAlertNameMapInFile (goodEnv envTable)
       (world (Map.empty(''My Rule'' \<mapsto> ''my-custom-rule'')) None
          [rule 1 ''c1'' ''ns1'' ''My Rule'', rule 2 ''c1'' ''ns1'' ''Foo Bar'',
           rule 3 ''c1'' ''ns1'' ''cpu-high''])))) = None"
proof -
  let ?w = "world (Map.empty(''My Rule'' \<mapsto> ''my-custom-rule'')) None
          [rule 1 ''c1'' ''ns1'' ''My Rule'', rule 2 ''c1'' ''ns1'' ''Foo Bar'',
           rule 3 ''c1'' ''ns1'' ''cpu-high'']"
  have run: "fst (updateAlertNameMapInFile (goodEnv envTable) ?w) = None"
    by code_simp
  have old: "fileMap ?w = Map.empty(''My Rule'' \<mapsto> ''my-custom-rule'')"
    by (simp add: fileMap_def world_def)
  have names: "selectNames (alert_rules ?w) = [''My Rule'', ''Foo Bar'']"
    by code_simp
  show ?thesis
    using phaseA_merge_idempotent[OF run] old names by simp
qed

section \<open>Properties of the re-sync driver\<close>

text \<open>
  As long as no failing lookup comes with a \<open>nil\<close> client, the loop runs to its end and
  hands every rule whose lookup succeeded to the rule processor, in order.
\<close>

lemma syncLoop_continues:
  "\<forall>v\<in>set vs. \<forall>e. ClientOf env (Cluster v) \<noteq> (None, Some e) \<Longrightarrow>
   fst (syncLoop env vs s) = Return None \<and>
   syncCalls (snd (syncLoop env vs s)) =
     syncCalls s @ map (\<lambda>v. (fst (ClientOf env (Cluster v)), v))
                     (filter (\<lambda>v. snd (ClientOf env (Cluster v)) = None) vs)"
proof (induction vs arbitrary: s)
  case Nil
  then show ?case by simp
next
  case (Cons v vs)
  obtain cli err where c: "ClientOf env (Cluster v) = (cli, err)"
    by (cases "ClientOf env (Cluster v)") auto
  have rest: "\<forall>v\<in>set vs. \<forall>e. ClientOf env (Cluster v) \<noteq> (None, Some e)"
    using Cons.prems by simp
  show ?case
  proof (cases err)
    case None
    then show ?thesis
      using c Cons.IH[OF rest] by (simp add: Let_def split: option.splits)
  next
    case (Some e)
    with c Cons.prems obtain name where "cli = Some name"
      by (cases cli) auto
    with Some c show ?thesis
      using Cons.IH[OF rest] by simp
  qed
qed

text \<open>
  Claim C8. The driver is meant to log a failed lookup of the cluster's client and go
  on with the next rule. The log call formats \<open>cli.Name()\<close> of the client that the failed
  lookup returned; when that client is \<open>nil\<close> the call panics. Of three rules whose
  second lookup fails so, the first is processed and the third is never reached.
\<close>

theorem sync_lookup_failure_panics:
  "syncAlertRules cluster2Down
     [rule 1 ''c1'' ''ns1'' ''a'', rule 2 ''c2'' ''ns1'' ''b'', rule 3 ''c3'' ''ns1'' ''c'']
     \<lparr>syncCalls = [], syncLogs = []\<rparr>
   = (Panic, \<lparr>syncCalls = [(Some ''c1'', rule 1 ''c1'' ''ns1'' ''a'')],
              syncLogs = [SyncAlertRuleSuccess (rule 1 ''c1'' ''ns1'' ''a'')]\<rparr>)"
  by code_simp

section \<open>Properties of the deep copies\<close>

lemma length_elems: "validSlice h s \<Longrightarrow> length (elems h s) = len s"
  by (cases s) auto

lemma elems_append: "validSlice h s \<Longrightarrow> elems (h @ ext) s = elems h s"
  by (cases s) (auto simp: nth_append)

lemma validSlice_append: "validSlice h s \<Longrightarrow> validSlice (h @ ext) s"
  by (cases s) (auto simp: nth_append)

lemma deepCopySlice_valid:
  assumes "validSlice h s" "s \<noteq> NilSlice"
  shows "deepCopySlice zero s h = (Slice (length h) 0 (len s), h @ [elems h s])"
proof -
  have "length (elems (h @ [replicate (len s) zero]) s) = len s"
    using assms(1) by (simp add: elems_append length_elems)
  then show ?thesis
    using assms by (simp add: deepCopySlice_def make_def elems_append)
qed

lemma deepCopySlice_nil: "deepCopySlice zero NilSlice h = (NilSlice, h)"
  by (simp add: deepCopySlice_def)

lemma deepCopySlice_facts:
  assumes "validSlice h0 s" "deepCopySlice zero s (h0 @ pre) = (s', h')"
  shows "h' = (h0 @ pre) @ map (elems h0) (filter (\<lambda>s. s \<noteq> NilSlice) [s])"
    and "sliceValue (h' @ ext) s' = sliceValue h0 s"
    and "arraysOf [s'] = (if s = NilSlice then [] else [length (h0 @ pre)])"
    and "validSlice (h' @ ext) s'"
proof -
  have v: "validSlice (h0 @ pre) s" using assms(1) by (rule validSlice_append)
  have e: "elems (h0 @ pre) s = elems h0 s" using assms(1) by (rule elems_append)
  have l: "length (elems h0 s) = len s" using assms(1) by (rule length_elems)
  have r: "s' = (if s = NilSlice then NilSlice else Slice (length (h0 @ pre)) 0 (len s))"
    "h' = (if s = NilSlice then h0 @ pre else (h0 @ pre) @ [elems h0 s])"
    using assms(2) deepCopySlice_valid[OF v, of zero] e
    by (auto simp: deepCopySlice_nil)
  show "h' = (h0 @ pre) @ map (elems h0) (filter (\<lambda>s. s \<noteq> NilSlice) [s])"
    using r by simp
  show "sliceValue (h' @ ext) s' = sliceValue h0 s"
    using r l by (simp add: sliceValue_def nth_append)
  show "arraysOf [s'] = (if s = NilSlice then [] else [length (h0 @ pre)])"
    using r by simp
  show "validSlice (h' @ ext) s'"
    using r l by (simp add: nth_append)
qed

lemma Plugin_DeepCopyInto_result:
  assumes valid: "validPlugin h p"
    and run: "Plugin_DeepCopyInto co z p h = (q, h')"
  shows "h' = h @ newArrays h p"
    and "pluginValue (h' @ ext) q =
           (TypeMeta p, ObjectMeta_DeepCopyInto co (ObjectMeta p),
            (sliceValue h (Dependencies (Spec p)), Values_DeepCopy co (SpecValues (Spec p)),
             sliceValue h (ValuesFrom (Spec p)), SpecRest (Spec p)),
            (Values_DeepCopy co (StatusValues (Status p)),
             Time_DeepCopyInto co (CreationTimestamp (Status p)),
             Time_DeepCopyInto co (UpgradeTimestamp (Status p)),
             sliceValue h (Resources (Status p)), StatusRest (Status p)))"
    and "arraysOf (pluginSlices q) = [length h ..< length h + length (newArrays h p)]"
    and "validPlugin (h' @ ext) q"
proof -
  from valid have v: "validSlice h (Dependencies (Spec p))" "validSlice h (ValuesFrom (Spec p))"
    "validSlice h (Resources (Status p))"
    by (simp_all add: validPlugin_def pluginSlices_def)
  obtain s1 h1 where d1: "deepCopySlice (zeroObjectReference z) (Dependencies (Spec p)) (h @ []) = (s1, h1)"
    by (cases "deepCopySlice (zeroObjectReference z) (Dependencies (Spec p)) (h @ [])") auto
  note f1 = deepCopySlice_facts[OF v(1) d1]
  let ?n1 = "map (elems h) (filter (\<lambda>s. s \<noteq> NilSlice) [Dependencies (Spec p)])"
  have h1: "h1 = h @ ?n1" using f1(1) by simp
  obtain s2 h2 where d2: "deepCopySlice (zeroValuesFrom z) (ValuesFrom (Spec p)) (h @ ?n1) = (s2, h2)"
    by (cases "deepCopySlice (zeroValuesFrom z) (ValuesFrom (Spec p)) (h @ ?n1)") auto
  note f2 = deepCopySlice_facts[OF v(2) d2]
  let ?n2 = "?n1 @ map (elems h) (filter (\<lambda>s. s \<noteq> NilSlice) [ValuesFrom (Spec p)])"
  have h2: "h2 = h @ ?n2" using f2(1) by simp
  obtain s3 h3 where d3: "deepCopySlice (zeroManagedResource z) (Resources (Status p)) (h @ ?n2) = (s3, h3)"
    by (cases "deepCopySlice (zeroManagedResource z) (Resources (Status p)) (h @ ?n2)") auto
  note f3 = deepCopySlice_facts[OF v(3) d3]
  let ?n3 = "?n2 @ map (elems h) (filter (\<lambda>s. s \<noteq> NilSlice) [Resources (Status p)])"
  have h3: "h3 = h @ ?n3" using f3(1) by simp
  have n3: "?n3 = newArrays h p"
    by (simp add: newArrays_def pluginSlices_def)
  have q: "q = p\<lparr>ObjectMeta := ObjectMeta_DeepCopyInto co (ObjectMeta p),
                Spec := (Spec p)\<lparr>Dependencies := s1,
                          SpecValues := Values_DeepCopy co (SpecValues (Spec p)),
                          ValuesFrom := s2\<rparr>,
                Status := (Status p)\<lparr>StatusValues := Values_DeepCopy co (StatusValues (Status p)),
                          CreationTimestamp := Time_DeepCopyInto co (CreationTimestamp (Status p)),
                          UpgradeTimestamp := Time_DeepCopyInto co (UpgradeTimestamp (Status p)),
                          Resources := s3\<rparr>\<rparr>"
    and h': "h' = h3"
    using run d1 d2 d3 h1 h2
    by (simp_all add: Plugin_DeepCopyInto_def PluginSpec_DeepCopyInto_def
          PluginStatus_DeepCopyInto_def Values_DeepCopyInto_def Let_def)
  show "h' = h @ newArrays h p"
    using h' h3 n3 by simp
  have e1: "sliceValue (h' @ ext) s1 = sliceValue h (Dependencies (Spec p))"
    using f1(2)[of "map (elems h) (filter (\<lambda>s. s \<noteq> NilSlice) [ValuesFrom (Spec p)]) @
                    map (elems h) (filter (\<lambda>s. s \<noteq> NilSlice) [Resources (Status p)]) @ ext"]
      h' h3 h1 by simp
  have e2: "sliceValue (h' @ ext) s2 = sliceValue h (ValuesFrom (Spec p))"
    using f2(2)[of "map (elems h) (filter (\<lambda>s. s \<noteq> NilSlice) [Resources (Status p)]) @ ext"]
      h' h3 h2 by simp
  have e3: "sliceValue (h' @ ext) s3 = sliceValue h (Resources (Status p))"
    using f3(2)[of ext] h' by simp
  show "pluginValue (h' @ ext) q =
           (TypeMeta p, ObjectMeta_DeepCopyInto co (ObjectMeta p),
            (sliceValue h (Dependencies (Spec p)), Values_DeepCopy co (SpecValues (Spec p)),
             sliceValue h (ValuesFrom (Spec p)), SpecRest (Spec p)),
            (Values_DeepCopy co (StatusValues (Status p)),
             Time_DeepCopyInto co (CreationTimestamp (Status p)),
             Time_DeepCopyInto co (UpgradeTimestamp (Status p)),
             sliceValue h (Resources (Status p)), StatusRest (Status p)))"
    using e1 e2 e3 by (simp add: pluginValue_def q)
  have a: "arraysOf (pluginSlices q) = arraysOf [s1] @ arraysOf [s2] @ arraysOf [s3]"
    by (cases s1; cases s2; cases s3) (simp_all add: pluginSlices_def q)
  show "arraysOf (pluginSlices q) = [length h ..< length h + length (newArrays h p)]"
    unfolding a f1(3) f2(3) f3(3)
    by (simp add: newArrays_def pluginSlices_def upt_rec)
  have w1: "validSlice (h' @ ext) s1"
    using f1(4)[of "map (elems h) (filter (\<lambda>s. s \<noteq> NilSlice) [ValuesFrom (Spec p)]) @
                    map (elems h) (filter (\<lambda>s. s \<noteq> NilSlice) [Resources (Status p)]) @ ext"]
      h' h3 h1 by simp
  have w2: "validSlice (h' @ ext) s2"
    using f2(4)[of "map (elems h) (filter (\<lambda>s. s \<noteq> NilSlice) [Resources (Status p)]) @ ext"]
      h' h3 h2 by simp
  have w3: "validSlice (h' @ ext) s3"
    using f3(4)[of ext] h' by simp
  show "validPlugin (h' @ ext) q"
    using w1 w2 w3 by (simp add: validPlugin_def pluginSlices_def q)
qed

lemma pluginValue_append: "validPlugin h p \<Longrightarrow> pluginValue (h @ ext) p = pluginValue h p"
  by (simp add: validPlugin_def pluginSlices_def pluginValue_def sliceValue_def elems_append)

lemma validPlugin_append: "validPlugin h p \<Longrightarrow> validPlugin (h @ ext) p"
  by (simp add: validPlugin_def pluginSlices_def validSlice_append)

lemma newArrays_append: "validPlugin h p \<Longrightarrow> newArrays (h @ ext) p = newArrays h p"
  by (auto simp: newArrays_def validPlugin_def pluginSlices_def elems_append)

lemma Plugin_DeepCopyInto_faithful:
  assumes "validPlugin h p" "faithful co p" "Plugin_DeepCopyInto co z p (h @ pre) = (q, h')"
  shows "h' = (h @ pre) @ newArrays h p"
    and "pluginValue (h' @ ext) q = pluginValue h p"
    and "arraysOf (pluginSlices q) =
           [length (h @ pre) ..< length (h @ pre) + length (newArrays h p)]"
    and "validPlugin (h' @ ext) q"
proof -
  have v: "validPlugin (h @ pre) p" using assms(1) by (rule validPlugin_append)
  note r = Plugin_DeepCopyInto_result[OF v assms(3)]
  have n: "newArrays (h @ pre) p = newArrays h p" using assms(1) by (rule newArrays_append)
  show "h' = (h @ pre) @ newArrays h p" using r(1) n by simp
  have "pluginValue (h' @ ext) q = pluginValue (h @ pre) p"
    using r(2)[of ext] assms(2) by (simp add: pluginValue_def faithful_def)
  then show "pluginValue (h' @ ext) q = pluginValue h p"
    using pluginValue_append[OF assms(1)] by simp
  show "arraysOf (pluginSlices q) =
           [length (h @ pre) ..< length (h @ pre) + length (newArrays h p)]"
    using r(3) n by simp
  show "validPlugin (h' @ ext) q" using r(4) .
qed

lemma copyItems_loop:
  assumes src: "validSlice ph src" "elems ph src = items" "length items = n"
    and ok: "\<forall>p\<in>set items. validPlugin h p \<and> faithful co p"
  shows "length done = k \<Longrightarrow> k + length rest = n \<Longrightarrow>
         copyItems co z src (Slice (length ph) 0 n) [k ..< n] (h @ pre, ph @ [done @ rest])
           = (h', ph') \<Longrightarrow>
         h' = (h @ pre) @ concat (map (newArrays h) (drop k items)) \<and>
         (\<exists>qs. ph' = ph @ [done @ qs] \<and> length qs = length rest \<and>
               list_all (validPlugin (h' @ ext)) qs \<and>
               map (pluginValue (h' @ ext)) qs = map (pluginValue h) (drop k items))"
proof (induction rest arbitrary: k pre "done" ext)
  case Nil
  then have "k = n" by simp
  with Nil src show ?case by simp
next
  case (Cons r rest)
  then have k: "k < n" by simp
  have idx: "[k ..< n] = k # [Suc k ..< n]" using k by (simp add: upt_conv_Cons)
  have item: "elems (ph @ [done @ r # rest]) src ! k = items ! k"
    using src(1,2) by (simp add: elems_append)
  have mem: "items ! k \<in> set items" using k src(3) by simp
  then have p: "validPlugin h (items ! k)" "faithful co (items ! k)" using ok by auto
  obtain q h1 where d: "Plugin_DeepCopyInto co z (items ! k) (h @ pre) = (q, h1)"
    by (cases "Plugin_DeepCopyInto co z (items ! k) (h @ pre)") auto
  note f = Plugin_DeepCopyInto_faithful[OF p d]
  have st: "storeAt (Slice (length ph) 0 n) k q (ph @ [done @ r # rest])
              = ph @ [(done @ [q]) @ rest]"
    using Cons.prems(1) by (simp add: list_update_append)
  have h1: "h1 = h @ (pre @ newArrays h (items ! k))" using f(1) by simp
  have nxt: "copyItems co z src (Slice (length ph) 0 n) [Suc k ..< n]
           (h @ (pre @ newArrays h (items ! k)), ph @ [(done @ [q]) @ rest]) = (h', ph')"
    using Cons.prems(3) idx item d st h1 by simp
  have IH: "h' = (h @ (pre @ newArrays h (items ! k))) @ concat (map (newArrays h) (drop (Suc k) items)) \<and>
         (\<exists>qs. ph' = ph @ [(done @ [q]) @ qs] \<and> length qs = length rest \<and>
               list_all (validPlugin (h' @ ext)) qs \<and>
               map (pluginValue (h' @ ext)) qs = map (pluginValue h) (drop (Suc k) items))"
    by (rule Cons.IH[OF _ _ nxt]) (use Cons.prems in auto)
  then obtain qs where qs: "ph' = ph @ [(done @ [q]) @ qs]" "length qs = length rest"
    "list_all (validPlugin (h' @ ext)) qs"
    "map (pluginValue (h' @ ext)) qs = map (pluginValue h) (drop (Suc k) items)"
    and h': "h' = (h @ (pre @ newArrays h (items ! k))) @ concat (map (newArrays h) (drop (Suc k) items))"
    by blast
  have dr: "drop k items = items ! k # drop (Suc k) items"
    using k src(3) by (simp add: Cons_nth_drop_Suc)
  have h'': "h' @ ext = h1 @ (concat (map (newArrays h) (drop (Suc k) items)) @ ext)"
    using h' h1 by simp
  have qv: "pluginValue (h' @ ext) q = pluginValue h (items ! k)"
    unfolding h'' by (rule f(2))
  have qw: "validPlugin (h' @ ext) q"
    unfolding h'' by (rule f(4))
  show ?case
  proof (intro conjI exI[of _ "q # qs"])
    show "h' = (h @ pre) @ concat (map (newArrays h) (drop k items))"
      using h' dr by simp
    show "ph' = ph @ [done @ q # qs]" using qs(1) by simp
    show "length (q # qs) = length (r # rest)" using qs(2) by simp
    show "list_all (validPlugin (h' @ ext)) (q # qs)" using qs(3) qw by simp
    show "map (pluginValue (h' @ ext)) (q # qs) = map (pluginValue h) (drop k items)"
      using qs(4) qv dr by simp
  qed
qed

lemma Plugin_DeepCopy_Some:
  assumes "validPlugin h p" "faithful co p"
  shows "\<exists>q h'. Plugin_DeepCopy co z (Some p) h = (Some q, h') \<and>
           pluginValue h' q = pluginValue h p \<and>
           validPlugin h' q \<and>
           arraysOf (pluginSlices q) = [length h ..< length h'] \<and>
           take (length h) h' = h"
proof -
  obtain q h' where d: "Plugin_DeepCopyInto co z p (h @ []) = (q, h')"
    by (cases "Plugin_DeepCopyInto co z p (h @ [])") auto
  note f = Plugin_DeepCopyInto_faithful[OF assms d]
  have "Plugin_DeepCopy co z (Some p) h = (Some q, h')"
    using d by (simp add: Plugin_DeepCopy_def)
  moreover have "pluginValue h' q = pluginValue h p" using f(2)[of "[]"] by simp
  moreover have "validPlugin h' q" using f(4)[of "[]"] by simp
  moreover have "arraysOf (pluginSlices q) = [length h ..< length h']"
    using f(3) f(1) by simp
  moreover have "take (length h) h' = h" using f(1) by simp
  ultimately show ?thesis by blast
qed

lemma PluginList_DeepCopy_Some:
  assumes "validList co (h, ph) l"
  shows "\<exists>out h' ph'. PluginList_DeepCopy co z zp (Some l) (h, ph) = (Some out, h', ph') \<and>
           listValue (h', ph') out = listValue (h, ph) l \<and>
           arraysOf [Items out] = [length ph ..< length ph'] \<and>
           take (length ph) ph' = ph \<and> take (length h) h' = h"
proof (cases "Items l = NilSlice")
  case True
  then show ?thesis
    using assms
    by (simp add: PluginList_DeepCopy_def PluginList_DeepCopyInto_def listValue_def validList_def)
next
  case False
  let ?items = "elems ph (Items l)"
  let ?n = "len (Items l)"
  from assms have v: "validSlice ph (Items l)"
    and ok: "\<forall>p\<in>set ?items. validPlugin h p \<and> faithful co p"
    and lm: "ListMeta_DeepCopyInto co (ListMeta l) = ListMeta l"
    by (simp_all add: validList_def list_all_iff)
  have n: "length ?items = ?n" using v by (rule length_elems)
  obtain h' ph' where loop:
    "copyItems co z (Items l) (Slice (length ph) 0 ?n) [0 ..< ?n]
       (h @ [], ph @ [[] @ replicate ?n zp]) = (h', ph')"
    by (cases "copyItems co z (Items l) (Slice (length ph) 0 ?n) [0 ..< ?n]
       (h @ [], ph @ [[] @ replicate ?n zp])") auto
  have "h' = (h @ []) @ concat (map (newArrays h) (drop 0 ?items)) \<and>
         (\<exists>qs. ph' = ph @ [[] @ qs] \<and> length qs = length (replicate ?n zp) \<and>
               list_all (validPlugin (h' @ [])) qs \<and>
               map (pluginValue (h' @ [])) qs = map (pluginValue h) (drop 0 ?items))"
    by (rule copyItems_loop[OF v refl n ok _ _ loop]) simp_all
  then obtain qs where h': "h' = h @ concat (map (newArrays h) ?items)"
    and qs: "ph' = ph @ [qs]" "length qs = ?n"
      "map (pluginValue h') qs = map (pluginValue h) ?items"
    by auto
  let ?out = "l\<lparr>Items := Slice (length ph) 0 ?n\<rparr>"
  have run: "PluginList_DeepCopy co z zp (Some l) (h, ph) = (Some ?out, h', ph')"
    using False loop lm
    by (simp add: PluginList_DeepCopy_def PluginList_DeepCopyInto_def make_def)
  have val: "listValue (h', ph') ?out = listValue (h, ph) l"
    using False qs by (simp add: listValue_def)
  show ?thesis
    using run val qs(1) h' by simp
qed

text \<open>
  Claim C10. \<open>DeepCopy\<close> of a \<open>nil\<close> plugin pointer is \<open>nil\<close>. Of a plugin whose slices
  lie in memory, and on which the deep copies of the collaborators are faithful, it
  returns a plugin that is not \<open>nil\<close> and has the same value, field for field and
  element for element; the slices of the copy that are not \<open>nil\<close> point to the arrays
  allocated by the call, one array each, and the memory that was there before is as it
  was. \<open>Items\<close> is a field of \<open>PluginList\<close>: its deep copy likewise returns a list of
  the same value whose \<open>Items\<close> point to a new array of deep copies.
\<close>

theorem DeepCopy_structurally_equal_fresh:
  assumes "validPlugin h p" "faithful co p" "validList co (h, ph) l"
  shows "Plugin_DeepCopy co z None h = (None, h) \<and>
         (\<exists>q h'. Plugin_DeepCopy co z (Some p) h = (Some q, h') \<and>
            pluginValue h' q = pluginValue h p \<and>
            validPlugin h' q \<and>
            arraysOf (pluginSlices q) = [length h ..< length h'] \<and>
            take (length h) h' = h) \<and>
         PluginList_DeepCopy co z zp None (h, ph) = (None, h, ph) \<and>
         (\<exists>out h' ph'. PluginList_DeepCopy co z zp (Some l) (h, ph) = (Some out, h', ph') \<and>
            listValue (h', ph') out = listValue (h, ph) l \<and>
            arraysOf [Items out] = [length ph ..< length ph'] \<and>
            take (length ph) ph' = ph \<and> take (length h) h' = h)"
  using Plugin_DeepCopy_Some[OF assms(1,2), of z] PluginList_DeepCopy_Some[OF assms(3), of z zp]
  by (simp add: Plugin_DeepCopy_def PluginList_DeepCopy_def)

theorem DeepCopy_structurally_equal_fresh_witness:
  "validPlugin someMemory (somePlugin (Slice 0 1 2) NilSlice (Slice 1 0 1)) \<and>
   faithful plainCollab (somePlugin (Slice 0 1 2) NilSlice (Slice 1 0 1)) \<and>
   validList plainCollab (someMemory, somePlugins) someList \<and>
   Plugin_DeepCopy plainCollab emptyZero
       (Some (somePlugin (Slice 0 1 2) NilSlice (Slice 1 0 1))) someMemory
     = (Some (somePlugin (Slice 2 0 2) NilSlice (Slice 3 0 1)),
        someMemory @ [[''dep1'', ''dep2''], [''res1'']]) \<and>
   pluginValue (someMemory @ [[''dep1'', ''dep2''], [''res1'']])
       (somePlugin (Slice 2 0 2) NilSlice (Slice 3 0 1))
     = pluginValue someMemory (somePlugin (Slice 0 1 2) NilSlice (Slice 1 0 1)) \<and>
   PluginList_DeepCopy plainCollab emptyZero (somePlugin NilSlice NilSlice NilSlice)
       (Some someList) (someMemory, somePlugins)
     = (Some (someList\<lparr>Items := Slice 1 0 2\<rparr>),
        someMemory @ [[''dep1'', ''dep2''], [''res1''], [''x'']],
        somePlugins @
          [[somePlugin (Slice 2 0 2) NilSlice (Slice 3 0 1),
            somePlugin NilSlice (Slice 4 0 1) NilSlice]])"
proof -
  let ?p = "somePlugin (Slice 0 1 2) NilSlice (Slice 1 0 1)"
  have v: "validPlugin someMemory ?p"
    by code_simp
  have f: "faithful plainCollab ?p"
    by (simp add: faithful_def plainCollab_def)
  have l: "validList plainCollab (someMemory, somePlugins) someList"
    by (simp add: validList_def validPlugin_def pluginSlices_def faithful_def plainCollab_def
          someList_def somePlugins_def someMemory_def somePlugin_def)
  have r1: "Plugin_DeepCopy plainCollab emptyZero (Some ?p) someMemory
     = (Some (somePlugin (Slice 2 0 2) NilSlice (Slice 3 0 1)),
        someMemory @ [[''dep1'', ''dep2''], [''res1'']])"
    by code_simp
  have r2: "PluginList_DeepCopy plainCollab emptyZero (somePlugin NilSlice NilSlice NilSlice)
       (Some someList) (someMemory, somePlugins)
     = (Some (someList\<lparr>Items := Slice 1 0 2\<rparr>),
        someMemory @ [[''dep1'', ''dep2''], [''res1''], [''x'']],
        somePlugins @
          [[somePlugin (Slice 2 0 2) NilSlice (Slice 3 0 1),
            somePlugin NilSlice (Slice 4 0 1) NilSlice]])"
    by code_simp
  from DeepCopy_structurally_equal_fresh[OF v f l, of emptyZero
      "somePlugin NilSlice NilSlice NilSlice"] r1
  have "pluginValue (someMemory @ [[''dep1'', ''dep2''], [''res1'']])
       (somePlugin (Slice 2 0 2) NilSlice (Slice 3 0 1))
     = pluginValue someMemory ?p"
    by simp
  with v f l r1 r2 show ?thesis by blast
qed

end
